theory Spec2Isabelle
  imports Complex_Main
begin

section \<open>The standards baseline engine of RoboMo 2.0\<close>

text \<open>
  A shallow embedding of \<^verbatim>\<open>standards_baseline/{config,device_state,engine,schemas,switch,api}.py\<close>.
  Python floats are modelled as real numbers, so rounding, overflow, infinities and NaN
  are outside the model (also the \<^verbatim>\<open>OverflowError\<close> of \<^verbatim>\<open>math.exp\<close>); the NowCast smoothing,
  where the rounding decides a property, is also given in binary64. A \<^verbatim>\<open>datetime\<close> is an
  instant measured in seconds, and the difference of two instants is \<^verbatim>\<open>total_seconds()\<close>
  of their \<^verbatim>\<open>timedelta\<close>; all instants are taken to be of one kind, so the \<^verbatim>\<open>TypeError\<close> of
  comparing a naive with a zone-aware \<^verbatim>\<open>datetime\<close> is outside the model too.
  A float literal with no fractional part (\<^verbatim>\<open>3600.0\<close>) is written as the numeral.
  Exceptions are values of type \<open>error\<close>, returned on the left of a sum.
\<close>

subsection \<open>Basic types\<close>

type_synonym datetime = real

datatype error =
    ValueError string
  | ValidationError
  | ZeroDivisionError
  | IndexError
  | AttributeError
  | OverflowError

subsection \<open>config.py\<close>

record IAQWeights =
  w_co2 :: real
  w_pm25 :: real
  w_voc :: real
  w_comfort :: real

type_synonym breakpoint = "real \<times> real \<times> real \<times> real"

text \<open>
  The module constants of \<^verbatim>\<open>config.py\<close>. Each can be overridden from the environment when
  the process starts, so the engine is modelled over a record of their values;
  \<open>default_config\<close> holds the defaults written in the source.
\<close>

record config =
  IAQ_WEIGHTS :: IAQWeights
  VOC_BREAKPOINTS :: "real \<times> real \<times> real"
  VOC_RISK_CAP :: real
  PM25_BREAKPOINTS :: "breakpoint list"
  COMFORT_TEMP_RANGE :: "real \<times> real"
  COMFORT_RH_RANGE :: "real \<times> real"
  SMOKE_TRIGGER :: real
  SMOKE_MIN_RISE :: real
  SMOKE_CLEAR_DELTA :: real
  SMOKE_CONSECUTIVE :: int
  DEFAULT_DEVICE_COUT_PPM :: real
  DEFAULT_DEVICE_ACH :: real
  DEFAULT_VOLUME_M3 :: real
  DEFAULT_G_PERSON :: real

definition DEFAULT_PM25_BREAKPOINTS :: "breakpoint list" where
  "DEFAULT_PM25_BREAKPOINTS =
     [(0, 12, 0, 50),
      (12.1, 35.4, 51, 100),
      (35.5, 55.4, 101, 150),
      (55.5, 150.4, 151, 200),
      (150.5, 250.4, 201, 300),
      (250.5, 500.4, 301, 500)]"

definition default_config :: config where
  "default_config =
     \<lparr> IAQ_WEIGHTS = \<lparr> w_co2 = 0.2, w_pm25 = 0.4, w_voc = 0.2, w_comfort = 0.2 \<rparr>,
       VOC_BREAKPOINTS = (220, 660, 2200),
       VOC_RISK_CAP = 65,
       PM25_BREAKPOINTS = DEFAULT_PM25_BREAKPOINTS,
       COMFORT_TEMP_RANGE = (20, 25),
       COMFORT_RH_RANGE = (30, 60),
       SMOKE_TRIGGER = 35,
       SMOKE_MIN_RISE = 10,
       SMOKE_CLEAR_DELTA = 5,
       SMOKE_CONSECUTIVE = 2,
       DEFAULT_DEVICE_COUT_PPM = 420,
       DEFAULT_DEVICE_ACH = 1,
       DEFAULT_VOLUME_M3 = 250,
       DEFAULT_G_PERSON = 4 / 1000000 \<rparr>"

subsection \<open>device\_state.py\<close>

record SmokeState =
  active :: bool
  consecutive_below :: int
  last_reason :: string

definition SmokeState_new :: SmokeState where
  "SmokeState_new = \<lparr> active = False, consecutive_below = 0, last_reason = ''normal'' \<rparr>"

record DeviceState =
  ds_device_id :: string
  ds_volume_m3 :: real
  ds_ach :: "real option"
  ds_cout_ppm :: real
  ds_ach_source :: string
  ds_last_nowcast_pm25 :: "real option"
  ds_g_person :: real
  ds_last_updated :: "datetime option"
  smoke :: SmokeState

definition DeviceState_new :: "config \<Rightarrow> string \<Rightarrow> DeviceState" where
  "DeviceState_new cfg dev =
     \<lparr> ds_device_id = dev,
       ds_volume_m3 = DEFAULT_VOLUME_M3 cfg,
       ds_ach = None,
       ds_cout_ppm = DEFAULT_DEVICE_COUT_PPM cfg,
       ds_ach_source = ''default'',
       ds_last_nowcast_pm25 = None,
       ds_g_person = DEFAULT_G_PERSON cfg,
       ds_last_updated = None,
       smoke = SmokeState_new \<rparr>"

text \<open>\<^verbatim>\<open>DeviceState.update_context\<close>: a field is overwritten only by a value that is present.\<close>

definition update_context ::
  "DeviceState \<Rightarrow> real option \<Rightarrow> string option \<Rightarrow> real option \<Rightarrow> real option \<Rightarrow>
   real option \<Rightarrow> datetime option \<Rightarrow> real option \<Rightarrow> DeviceState" where
  "update_context self a_ach a_ach_source a_volume_m3 a_cout_ppm a_nowcast_pm25 a_timestamp a_g_person =
     (let s1 = (case a_volume_m3 of None \<Rightarrow> self | Some v \<Rightarrow> self\<lparr> ds_volume_m3 := v \<rparr>);
          s2 = (case a_cout_ppm of None \<Rightarrow> s1 | Some v \<Rightarrow> s1\<lparr> ds_cout_ppm := v \<rparr>);
          s3 = (case a_ach of None \<Rightarrow> s2 | Some v \<Rightarrow> s2\<lparr> ds_ach := Some v \<rparr>);
          s4 = (case a_ach_source of None \<Rightarrow> s3 | Some v \<Rightarrow> s3\<lparr> ds_ach_source := v \<rparr>);
          s5 = (case a_nowcast_pm25 of None \<Rightarrow> s4 | Some v \<Rightarrow> s4\<lparr> ds_last_nowcast_pm25 := Some v \<rparr>);
          s6 = (case a_timestamp of None \<Rightarrow> s5 | Some v \<Rightarrow> s5\<lparr> ds_last_updated := Some v \<rparr>);
          s7 = (case a_g_person of None \<Rightarrow> s6 | Some v \<Rightarrow> s6\<lparr> ds_g_person := v \<rparr>)
      in s7)"

subsection \<open>engine.py: samples and smoothing\<close>

record BaselineOptions =
  volume_m3 :: real
  ach :: "real option"
  cout_ppm :: real
  g_person :: real

record Sample =
  timestamp :: datetime
  device_id :: string
  pm25 :: "real option"
  co2 :: "real option"
  voc :: "real option"
  pm1 :: "real option"
  pm4 :: "real option"
  pm10 :: "real option"
  temp_c :: "real option"
  rh :: "real option"

definition clamp :: "real \<Rightarrow> real \<Rightarrow> real \<Rightarrow> real" where
  "clamp val low high = max low (min val high)"

text \<open>Python's \<^verbatim>\<open>xs[-n:]\<close> for a positive \<open>n\<close>: the last \<open>n\<close> elements, or all of a shorter list.\<close>

definition lastn :: "nat \<Rightarrow> 'a list \<Rightarrow> 'a list" where
  "lastn n xs = drop (length xs - n) xs"

definition moving_average :: "real list \<Rightarrow> int \<Rightarrow> real list" where
  "moving_average vals window =
     (if window \<le> 1 then vals
      else map (\<lambda>idx.
             let start = nat (max 0 (int idx - window + 1));
                 segment = take (idx + 1 - start) (drop start vals)
             in sum_list segment / real (length segment))
           [0..<length vals])"

text \<open>The accumulation loop of \<^verbatim>\<open>compute_nowcast_pm25\<close> over \<^verbatim>\<open>enumerate(reversed(tail))\<close>.\<close>

fun nowcast_loop :: "real \<Rightarrow> nat \<Rightarrow> real list \<Rightarrow> real \<times> real \<Rightarrow> real \<times> real" where
  "nowcast_loop weight i [] acc = acc"
| "nowcast_loop weight i (v # vs) (numerator, denom_sum) =
     nowcast_loop weight (Suc i) vs (numerator + weight ^ i * v, denom_sum + weight ^ i)"

definition non_null :: "'a option list \<Rightarrow> 'a list" where
  "non_null vals = [v. Some v \<leftarrow> vals]"

definition compute_nowcast_pm25 :: "real option list \<Rightarrow> real option" where
  "compute_nowcast_pm25 vals =
     (let tail = non_null vals in
      if tail = [] then None
      else if length tail = 1 then Some (hd tail)
      else
        let tail = lastn 12 tail;
            c_max = Max (set tail);
            c_min = Min (set tail);
            denom = max c_max 0.000001;
            weight = max 0.5 (1 - (c_max - c_min) / denom);
            (numerator, denom_sum) = nowcast_loop weight 0 (rev tail) (0, 0)
        in Some (if denom_sum \<noteq> 0 then numerator / denom_sum else last tail))"

fun nowcast_series_loop ::
  "(datetime \<times> real option) list \<Rightarrow> real list \<Rightarrow> (datetime \<times> real) list \<Rightarrow> (datetime \<times> real) list" where
  "nowcast_series_loop [] tail history = history"
| "nowcast_series_loop ((ts, val) # rest) tail history =
     (let tail1 = (case val of None \<Rightarrow> tail | Some v \<Rightarrow> tail @ [v]);
          tail2 = (if length tail1 > 12 then lastn 12 tail1 else tail1);
          history' = (case compute_nowcast_pm25 (map Some tail2) of
                        None \<Rightarrow> history
                      | Some nowcast \<Rightarrow> history @ [(ts, nowcast)])
      in nowcast_series_loop rest tail2 history')"

definition compute_nowcast_series :: "(datetime \<times> real option) list \<Rightarrow> (datetime \<times> real) list" where
  "compute_nowcast_series pm25_values = nowcast_series_loop (sort_key fst pm25_values) [] []"

subsection \<open>engine.py: NowCast smoothing in binary64\<close>

text \<open>
  Whether the NowCast value stays between the least and the greatest reading depends on the
  rounding of the accumulation, so \<^verbatim>\<open>compute_nowcast_pm25\<close> is given a second time with
  every arithmetic operation rounded as IEEE 754 binary64 does, to nearest with ties to even.
  \<open>rne\<close> rounds a real to the nearest integer, ties to the even one. \<open>fl64 x\<close> is the double
  nearest to \<open>x\<close>: the integer multiple of \<open>2 powi e\<close> nearest to \<open>x\<close>, where \<open>e\<close> is the
  exponent of the last place of \<open>x\<close>, with 53 significant bits and the least exponent
  \<open>- 1074\<close> (gradual underflow). Overflow to infinity is not modelled: \<open>fl64\<close> is the
  program's rounding for results of magnitude below \<open>2 ^ 1024\<close>.
\<close>

definition rne :: "real \<Rightarrow> int" where
  "rne y = (let f = \<lfloor>y\<rfloor>; d = y - of_int f in
            if d < 1/2 then f else if d > 1/2 then f + 1 else if even f then f else f + 1)"

definition fl64_exp :: "real \<Rightarrow> int" where
  "fl64_exp x = max \<lfloor>log 2 \<bar>x\<bar>\<rfloor> (- 1022) - 52"

definition fl64 :: "real \<Rightarrow> real" where
  "fl64 x = (if x = 0 then 0 else of_int (rne (x / 2 powi fl64_exp x)) * 2 powi fl64_exp x)"

definition min_normal :: real where
  "min_normal = 2 powi (- 1022)"

text \<open>
  \<^verbatim>\<open>weight ** i\<close> is the \<^verbatim>\<open>pow\<close> of the C library, whose last bit is not fixed by the language:
  the loop takes it as a parameter. \<open>pow_f64\<close> is the correctly rounded power. The literals
  \<^verbatim>\<open>0.5\<close>, \<^verbatim>\<open>1.0\<close> and \<^verbatim>\<open>0.0\<close> are doubles; \<^verbatim>\<open>1e-6\<close> is read as the nearest double. \<^verbatim>\<open>max\<close>, \<^verbatim>\<open>min\<close>
  and the slice are exact.
\<close>

definition pow_f64 :: "real \<Rightarrow> nat \<Rightarrow> real" where
  "pow_f64 w i = fl64 (w ^ i)"

fun nowcast_loop_f64 ::
  "(real \<Rightarrow> nat \<Rightarrow> real) \<Rightarrow> real \<Rightarrow> nat \<Rightarrow> real list \<Rightarrow> real \<times> real \<Rightarrow> real \<times> real" where
  "nowcast_loop_f64 pw weight i [] acc = acc"
| "nowcast_loop_f64 pw weight i (v # vs) (numerator, denom_sum) =
     (let w = pw weight i
      in nowcast_loop_f64 pw weight (Suc i) vs
           (fl64 (numerator + fl64 (w * v)), fl64 (denom_sum + w)))"

definition compute_nowcast_pm25_f64 :: "(real \<Rightarrow> nat \<Rightarrow> real) \<Rightarrow> real option list \<Rightarrow> real option" where
  "compute_nowcast_pm25_f64 pw vals =
     (let tail = non_null vals in
      if tail = [] then None
      else if length tail = 1 then Some (hd tail)
      else
        let tail = lastn 12 tail;
            c_max = Max (set tail);
            c_min = Min (set tail);
            denom = max c_max (fl64 0.000001);
            weight = max 0.5 (fl64 (1 - fl64 (fl64 (c_max - c_min) / denom)));
            (numerator, denom_sum) = nowcast_loop_f64 pw weight 0 (rev tail) (0, 0)
        in Some (if denom_sum \<noteq> 0 then fl64 (numerator / denom_sum) else last tail))"

subsection \<open>engine.py: AQI conversion and penalty curves\<close>

text \<open>
  The loop of \<^verbatim>\<open>pm25_aqi\<close> over the breakpoint rows: the first row that contains \<open>c\<close>
  decides; \<open>None\<close> when the loop ends without a \<^verbatim>\<open>return\<close>.
\<close>

fun aqi_scan :: "breakpoint list \<Rightarrow> real \<Rightarrow> (error + real) option" where
  "aqi_scan [] c = None"
| "aqi_scan ((c_lo, c_hi, i_lo, i_hi) # rows) c =
     (if c_lo \<le> c \<and> c \<le> c_hi then
        (if c_hi - c_lo = 0 then Some (Inl ZeroDivisionError)
         else Some (Inr ((i_hi - i_lo) / (c_hi - c_lo) * (c - c_lo) + i_lo)))
      else aqi_scan rows c)"

definition pm25_aqi :: "config \<Rightarrow> real option \<Rightarrow> error + real option" where
  "pm25_aqi cfg nowcast =
     (case nowcast of
        None \<Rightarrow> Inr None
      | Some c \<Rightarrow>
          (case aqi_scan (PM25_BREAKPOINTS cfg) c of
             Some (Inl e) \<Rightarrow> Inl e
           | Some (Inr v) \<Rightarrow> Inr (Some v)
           | None \<Rightarrow>
               (case PM25_BREAKPOINTS cfg of
                  [] \<Rightarrow> Inl IndexError
                | _ # _ \<Rightarrow> Inr (Some (snd (snd (snd (last (PM25_BREAKPOINTS cfg)))))))))"

definition co2_penalty :: "real option \<Rightarrow> real" where
  "co2_penalty co2_ppm =
     (case co2_ppm of
        None \<Rightarrow> 0
      | Some c \<Rightarrow>
          (let max_penalty = 100;
               penalty = max_penalty / (1 + exp (- 0.018 * (c - 800)))
           in clamp penalty 0 max_penalty))"

definition tvoc_penalty :: "config \<Rightarrow> real option \<Rightarrow> real" where
  "tvoc_penalty cfg v_opt =
     (case v_opt of
        None \<Rightarrow> 0
      | Some v \<Rightarrow>
          (let (b1, b2, b3) = VOC_BREAKPOINTS cfg; cap = VOC_RISK_CAP cfg in
           if v \<le> b1 then 0
           else if v \<le> b2 then
             (let fraction = (v - b1) / max (b2 - b1) 0.000001
              in (cap * 0.5) * fraction ^ 2)
           else if v \<le> b3 then
             (let fraction = (v - b2) / max (b3 - b2) 0.000001
              in (cap * 0.5) + (cap * 0.5) * fraction ^ 2)
           else cap))"

definition comfort_penalty :: "config \<Rightarrow> real option \<Rightarrow> real option \<Rightarrow> real" where
  "comfort_penalty cfg t_opt rh_opt =
     (let (temp_low, temp_high) = COMFORT_TEMP_RANGE cfg;
          (rh_low, rh_high) = COMFORT_RH_RANGE cfg;
          p1 = (case t_opt of
                  None \<Rightarrow> 0
                | Some t \<Rightarrow>
                    if t < temp_low then (temp_low - t) ^ 2 * 2
                    else if t > temp_high then (t - temp_high) ^ 2 * 2
                    else 0);
          p2 = (case rh_opt of
                  None \<Rightarrow> p1
                | Some h \<Rightarrow>
                    if h < rh_low then p1 + (rh_low - h) powr 1.5
                    else if h > rh_high then p1 + (h - rh_high) powr 1.5
                    else p1)
      in clamp p2 0 100)"

record iaq_info =
  iaq_score :: real
  aqi_pm25 :: "real option"
  risk_pm25 :: real
  risk_co2 :: real
  risk_tvoc :: real
  risk_comfort :: real
  risk_weighted :: real
  dominant_risk :: real
  weights :: IAQWeights

definition build_iaq ::
  "config \<Rightarrow> real option \<Rightarrow> real option \<Rightarrow> real option \<Rightarrow> real option \<Rightarrow> real option \<Rightarrow> error + iaq_info" where
  "build_iaq cfg nowcast_pm25 co2_ppm v t h =
     (case pm25_aqi cfg nowcast_pm25 of
        Inl e \<Rightarrow> Inl e
      | Inr aqi \<Rightarrow>
          (let ws = IAQ_WEIGHTS cfg;
               r_pm25 = (case aqi of None \<Rightarrow> 0 | Some a \<Rightarrow> min 100 (a / 5));
               r_co2 = co2_penalty co2_ppm;
               r_tvoc = tvoc_penalty cfg v;
               r_comfort = comfort_penalty cfg t h;
               weighted_sum = r_pm25 * w_pm25 ws + r_co2 * w_co2 ws
                              + r_tvoc * w_voc ws + r_comfort * w_comfort ws;
               weighted_risk = clamp weighted_sum 0 100
           in Inr \<lparr> iaq_score = clamp (100 - weighted_risk) 0 100,
                    aqi_pm25 = aqi,
                    risk_pm25 = r_pm25,
                    risk_co2 = r_co2,
                    risk_tvoc = r_tvoc,
                    risk_comfort = r_comfort,
                    risk_weighted = weighted_risk,
                    dominant_risk = max (max (max r_co2 r_pm25) r_tvoc) r_comfort,
                    weights = ws \<rparr>))"

subsection \<open>engine.py: the smoke detector\<close>

record thresholds =
  th_trigger :: real
  th_min_rise :: real
  th_clear_threshold :: real
  th_hysteresis_required :: int

record smoke_info =
  smoke_present :: bool
  reason :: string
  last_nowcast_pm25 :: "real option"
  raw_probability :: real
  thresholds_used :: thresholds

definition thresholds_of :: "config \<Rightarrow> thresholds" where
  "thresholds_of cfg =
     \<lparr> th_trigger = SMOKE_TRIGGER cfg,
       th_min_rise = SMOKE_MIN_RISE cfg,
       th_clear_threshold = SMOKE_TRIGGER cfg - SMOKE_CLEAR_DELTA cfg,
       th_hysteresis_required = SMOKE_CONSECUTIVE cfg \<rparr>"

text \<open>
  The quantities \<^verbatim>\<open>assess_smoke\<close> reads off a non-empty series: the value of the latest
  point after the stable sort by timestamp, and its rise over the reference point (the most
  recent point at least ten minutes older than the latest, or the earliest point).
\<close>

definition latest_val :: "(datetime \<times> real) list \<Rightarrow> real" where
  "latest_val nowcast_series = snd (last (sort_key fst nowcast_series))"

definition previous_val :: "(datetime \<times> real) list \<Rightarrow> real" where
  "previous_val nowcast_series =
     (let srt = sort_key fst nowcast_series;
          latest_ts = fst (last srt);
          ten_minutes = latest_ts - 600
      in case find (\<lambda>(ts, val). ts \<le> ten_minutes) (rev srt) of
           Some (ts, val) \<Rightarrow> val
         | None \<Rightarrow> snd (hd srt))"

definition rise :: "(datetime \<times> real) list \<Rightarrow> real" where
  "rise nowcast_series = latest_val nowcast_series - previous_val nowcast_series"

definition clear_threshold :: "config \<Rightarrow> real" where
  "clear_threshold cfg = SMOKE_TRIGGER cfg - SMOKE_CLEAR_DELTA cfg"

definition trigger_met :: "config \<Rightarrow> (datetime \<times> real) list \<Rightarrow> bool" where
  "trigger_met cfg nowcast_series =
     (latest_val nowcast_series \<ge> SMOKE_TRIGGER cfg \<and> rise nowcast_series \<ge> SMOKE_MIN_RISE cfg)"

definition assess_smoke ::
  "config \<Rightarrow> (datetime \<times> real) list \<Rightarrow> SmokeState option \<Rightarrow> smoke_info \<times> SmokeState" where
  "assess_smoke cfg nowcast_series state_opt =
     (let state = (case state_opt of None \<Rightarrow> SmokeState_new | Some s \<Rightarrow> s) in
      if nowcast_series = [] then
        (\<lparr> smoke_present = False, reason = ''insufficient'', last_nowcast_pm25 = None,
           raw_probability = 0, thresholds_used = thresholds_of cfg \<rparr>, state)
      else
        let latest = latest_val nowcast_series;
            trigger = SMOKE_TRIGGER cfg;
            clear = clear_threshold cfg;
            updated_state =
              (if trigger_met cfg nowcast_series then
                 \<lparr> active = True, consecutive_below = 0, last_reason = ''rapid_rise'' \<rparr>
               else if active state then
                 (if latest \<le> clear then
                    (if consecutive_below state + 1 \<ge> SMOKE_CONSECUTIVE cfg then
                       \<lparr> active = False, consecutive_below = 0, last_reason = ''clearing'' \<rparr>
                     else
                       \<lparr> active = True, consecutive_below = consecutive_below state + 1,
                         last_reason = ''hysteresis_hold'' \<rparr>)
                  else
                    \<lparr> active = True, consecutive_below = 0, last_reason = ''hysteresis_hold'' \<rparr>)
               else
                 \<lparr> active = False, consecutive_below = 0, last_reason = ''below_threshold'' \<rparr>);
            raw = clamp ((latest - clear) / max (trigger - clear) 0.000001) 0 1
        in (\<lparr> smoke_present = active updated_state, reason = last_reason updated_state,
              last_nowcast_pm25 = Some latest, raw_probability = raw,
              thresholds_used = thresholds_of cfg \<rparr>, updated_state))"

text \<open>
  A run of the detector: one call of \<^verbatim>\<open>assess_smoke\<close> per series, each call starting from
  the state the previous one returned.
\<close>

definition smoke_step :: "config \<Rightarrow> SmokeState \<Rightarrow> (datetime \<times> real) list \<Rightarrow> SmokeState" where
  "smoke_step cfg state nowcast_series = snd (assess_smoke cfg nowcast_series (Some state))"

definition smoke_run :: "config \<Rightarrow> SmokeState \<Rightarrow> (datetime \<times> real) list list \<Rightarrow> SmokeState" where
  "smoke_run cfg state steps = foldl (smoke_step cfg) state steps"

text \<open>
  A step that counts towards clearing: its series is not empty, its latest value is at or
  below the clear threshold, and it does not trigger.
\<close>

definition below_clear :: "config \<Rightarrow> (datetime \<times> real) list \<Rightarrow> bool" where
  "below_clear cfg nowcast_series =
     (nowcast_series \<noteq> [] \<and> latest_val nowcast_series \<le> clear_threshold cfg
      \<and> \<not> trigger_met cfg nowcast_series)"

subsection \<open>engine.py: air-exchange rate and occupancy\<close>

definition regression_slope :: "real list \<Rightarrow> real list \<Rightarrow> real option" where
  "regression_slope x y =
     (let n = length x in
      if n < 2 then None
      else
        let sum_x = sum_list x;
            sum_y = sum_list y;
            sum_xy = sum_list (map (\<lambda>(a, b). a * b) (zip x y));
            sum_x2 = sum_list (map (\<lambda>a. a * a) x);
            denom = real n * sum_x2 - sum_x * sum_x
        in if denom = 0 then None
           else Some ((real n * sum_xy - sum_x * sum_y) / denom))"

definition estimate_ach :: "datetime list \<Rightarrow> real list \<Rightarrow> real \<Rightarrow> real option" where
  "estimate_ach tms co2_ppm cout =
     (if length tms < 3 then None
      else
        let vals = map (\<lambda>t. t - hd tms) tms;
            excess = map (\<lambda>v. max (v - cout) 0.000001) co2_ppm
        in if list_ex (\<lambda>v. v \<le> 0) excess then None
           else
             let logs = map ln excess in
             case regression_slope vals logs of
               None \<Rightarrow> None
             | Some slope \<Rightarrow> if slope \<ge> 0 then None else Some (- slope * 3600))"

record occupancy_info =
  n_estimate :: real
  ach_used :: real
  ach_source :: string
  occ_note :: string

record occ_updates =
  upd_ach :: "real option"
  upd_ach_source :: "string option"

text \<open>\<^verbatim>\<open>sep.join(parts)\<close>.\<close>

fun join :: "string \<Rightarrow> string list \<Rightarrow> string" where
  "join sep [] = []"
| "join sep [x] = x"
| "join sep (x # y # ys) = x @ sep @ join sep (y # ys)"

text \<open>\<^verbatim>\<open>math.isfinite\<close>: every real number is finite.\<close>

definition isfinite :: "real \<Rightarrow> bool" where
  "isfinite x = True"

definition compute_occupancy ::
  "config \<Rightarrow> Sample list \<Rightarrow> BaselineOptions \<Rightarrow> string \<Rightarrow> bool \<Rightarrow> DeviceState option \<Rightarrow>
   occupancy_info \<times> occ_updates" where
  "compute_occupancy cfg samples options ach_origin allow_estimate cached_state =
     (let co2_samples = concat (map (\<lambda>s. case co2 s of None \<Rightarrow> [] | Some c \<Rightarrow> [(timestamp s, c)]) samples);
          no_updates = \<lparr> upd_ach = None, upd_ach_source = None \<rparr>
      in
      if length co2_samples < 1 then
        (\<lparr> n_estimate = 0,
           ach_used = (case ach options of
                         None \<Rightarrow> DEFAULT_DEVICE_ACH cfg
                       | Some a \<Rightarrow> if a \<noteq> 0 then a else DEFAULT_DEVICE_ACH cfg),
           ach_source = ach_origin,
           occ_note = ''insufficient CO2 data'' \<rparr>, no_updates)
      else
        let srt = sort_key fst co2_samples;
            tms = map fst srt;
            vals = map snd srt;
            smoothed_values = moving_average vals 3;
            ach_used0 = (case ach options of None \<Rightarrow> DEFAULT_DEVICE_ACH cfg | Some a \<Rightarrow> a);
            notes0 = [''ach_source='' @ ach_origin, ''ma3_co2_smoothing''];
            ach_est = (if allow_estimate then estimate_ach tms vals (cout_ppm options) else None);
            estimated = (case ach_est of None \<Rightarrow> False | Some a \<Rightarrow> a \<noteq> 0 \<and> a > 0.1);
            ach_used1 = (if estimated then the ach_est else ach_used0);
            ach_source1 = (if estimated then ''decay_estimate'' else ach_origin);
            updates = (if estimated then \<lparr> upd_ach = ach_est, upd_ach_source = Some ''decay_estimate'' \<rparr>
                       else no_updates);
            notes1 = (if estimated then notes0 @ [''ach_estimated_from_decay''] else notes0);
            V = volume_m3 options;
            Q = ach_used1 * V / 3600;
            cout_frac = cout_ppm options / 1000000;
            g = max (if g_person options \<noteq> 0 then g_person options else DEFAULT_G_PERSON cfg) 0.000000001;
            c_t = last smoothed_values / 1000000;
            dt = last tms - last (butlast tms);
            deriv_defined = (length smoothed_values \<ge> 2 \<and> dt > 0);
            dc_dt = (c_t - last (butlast smoothed_values) / 1000000) / dt;
            derivative_estimate = (V * dc_dt + Q * (c_t - cout_frac)) / g;
            notes2 = (if deriv_defined \<and> abs dc_dt < 0.000001 then notes1 @ [''steady_state''] else notes1);
            use_derivative = (deriv_defined \<and> isfinite derivative_estimate);
            estimate = (if use_derivative then derivative_estimate else Q * (c_t - cout_frac) / g);
            notes3 = (if use_derivative then notes2 else notes2 @ [''steady_state_estimate''])
        in (\<lparr> n_estimate = max 0 estimate,
              ach_used = ach_used1,
              ach_source = ach_source1,
              occ_note = join ''; '' notes3 \<rparr>, updates))"

record baseline_result =
  res_device_id :: string
  iaq :: iaq_info
  smoke_result :: smoke_info
  occupancy :: occupancy_info

record baseline_updates =
  u_timestamp :: datetime
  u_nowcast_pm25 :: "real option"
  u_volume_m3 :: real
  u_cout_ppm :: real
  u_smoke_state :: SmokeState
  u_ach :: "real option"
  u_ach_source :: "string option"

definition compute_baseline ::
  "config \<Rightarrow> string \<Rightarrow> Sample list \<Rightarrow> BaselineOptions \<Rightarrow> DeviceState option \<Rightarrow> string \<Rightarrow> bool \<Rightarrow>
   error + (baseline_result \<times> baseline_updates)" where
  "compute_baseline cfg dev samples0 options device_state ach_origin allow_update =
     (let samples = sort_key timestamp samples0 in
      if samples = [] then Inl IndexError
      else
        let now = timestamp (last samples);
            pm_series = concat (map (\<lambda>s. case pm25 s of None \<Rightarrow> [] | Some p \<Rightarrow> [(timestamp s, Some p)]) samples);
            nowcasts = compute_nowcast_series pm_series;
            nowcast_latest = (if nowcasts \<noteq> [] then Some (snd (last nowcasts)) else None);
            latest = last samples
        in case build_iaq cfg nowcast_latest (co2 latest) (voc latest) (temp_c latest) (rh latest) of
             Inl e \<Rightarrow> Inl e
           | Inr iaq_v \<Rightarrow>
               (let smoke_state = (case device_state of None \<Rightarrow> None | Some d \<Rightarrow> Some (smoke d));
                    (smoke_v, updated_smoke_state) = assess_smoke cfg nowcasts smoke_state;
                    (occupancy_v, occ_upd) =
                       compute_occupancy cfg samples options ach_origin allow_update device_state
                in Inr (\<lparr> res_device_id = dev, iaq = iaq_v, smoke_result = smoke_v,
                          occupancy = occupancy_v \<rparr>,
                        \<lparr> u_timestamp = now,
                          u_nowcast_pm25 = nowcast_latest,
                          u_volume_m3 = volume_m3 options,
                          u_cout_ppm = cout_ppm options,
                          u_smoke_state = updated_smoke_state,
                          u_ach = upd_ach occ_upd,
                          u_ach_source = upd_ach_source occ_upd \<rparr>)))"

subsection \<open>schemas.py and the parsing of a reading\<close>

text \<open>
  The value under the key \<^verbatim>\<open>timestamp\<close> of a reading's mapping, as
  \<^verbatim>\<open>_parse_timestamp\<close> distinguishes it: a \<^verbatim>\<open>datetime\<close>, \<^verbatim>\<open>None\<close>, a number, or anything else
  through its text.
\<close>

datatype timestamp_value = TsDatetime datetime | TsNone | TsNumber real | TsText string

record BaselineReading =
  r_timestamp :: timestamp_value
  r_device_id :: "string option"
  r_pm25 :: "real option"
  r_co2 :: "real option"
  r_voc :: "real option"
  r_pm01 :: "real option"
  r_pm4 :: "real option"
  r_pm10 :: "real option"
  r_temp_c :: "real option"
  r_rh :: "real option"

record BaselineRequest =
  req_device_id :: "string option"
  readings :: "BaselineReading list"
  req_volume_m3 :: "real option"
  req_ach :: "real option"
  req_cout_ppm :: "real option"
  g_per_person_m3_s :: "real option"

text \<open>
  The functions of Python's standard library and of pydantic that the engine calls on
  timestamps. They are not code of the repository, so the model takes them as parameters:
  \<open>None\<close> stands for their \<^verbatim>\<open>ValueError\<close> (for pydantic, its \<^verbatim>\<open>ValidationError\<close>).
  \<open>str_strip\<close> is \<^verbatim>\<open>str.strip()\<close>, which removes every leading and trailing character that
  Unicode counts as white space.
\<close>

record pylib =
  str_strip :: "string \<Rightarrow> string"
  fromtimestamp :: "real \<Rightarrow> error + datetime"
  fromisoformat :: "string \<Rightarrow> datetime option"
  strptime :: "string \<Rightarrow> string \<Rightarrow> datetime option"
  isoformat :: "datetime \<Rightarrow> string"
  pydantic_datetime :: "timestamp_value \<Rightarrow> datetime option"

definition parse_timestamp :: "pylib \<Rightarrow> timestamp_value \<Rightarrow> error + datetime" where
  "parse_timestamp L v =
     (case v of
        TsDatetime t \<Rightarrow> Inr t
      | TsNone \<Rightarrow> Inl (ValueError ''timestamp missing'')
      | TsNumber x \<Rightarrow> fromtimestamp L x
      | TsText s \<Rightarrow>
          (let text0 = str_strip L s;
               text1 = (if text0 \<noteq> [] \<and> last text0 = CHR ''Z'' then butlast text0 @ ''+00:00'' else text0)
           in case fromisoformat L text1 of
                Some t \<Rightarrow> Inr t
              | None \<Rightarrow>
                  (case strptime L text1 ''%Y-%m-%d %H:%M:%S'' of
                     Some t \<Rightarrow> Inr t
                   | None \<Rightarrow>
                       (case strptime L text1 ''%Y-%m-%d %H:%M:%S.%f'' of
                          Some t \<Rightarrow> Inr t
                        | None \<Rightarrow> Inl (ValueError (''invalid timestamp: '' @ s))))))"

definition to_float :: "real option \<Rightarrow> real option" where
  "to_float v = (case v of None \<Rightarrow> None | Some x \<Rightarrow> Some x)"

definition from_mapping :: "pylib \<Rightarrow> BaselineReading \<Rightarrow> error + Sample" where
  "from_mapping L data =
     (case parse_timestamp L (r_timestamp data) of
        Inl e \<Rightarrow> Inl e
      | Inr t \<Rightarrow>
          Inr \<lparr> timestamp = t,
                device_id = (case r_device_id data of
                               None \<Rightarrow> ''unknown''
                             | Some d \<Rightarrow> if d \<noteq> [] then d else ''unknown''),
                pm25 = to_float (r_pm25 data),
                co2 = to_float (r_co2 data),
                voc = to_float (r_voc data),
                pm1 = to_float (r_pm01 data),
                pm4 = to_float (r_pm4 data),
                pm10 = to_float (r_pm10 data),
                temp_c = to_float (r_temp_c data),
                rh = to_float (r_rh data) \<rparr>)"

text \<open>
  \<^verbatim>\<open>BaselineReading(**payload)\<close>: pydantic validates the fields; the model keeps its check of
  the timestamp, after which the field holds a \<^verbatim>\<open>datetime\<close>.
\<close>

definition BaselineReading_init :: "pylib \<Rightarrow> BaselineReading \<Rightarrow> error + BaselineReading" where
  "BaselineReading_init L payload =
     (case pydantic_datetime L (r_timestamp payload) of
        None \<Rightarrow> Inl ValidationError
      | Some t \<Rightarrow> Inr (payload\<lparr> r_timestamp := TsDatetime t \<rparr>))"

fun validate_readings :: "pylib \<Rightarrow> BaselineReading list \<Rightarrow> error + BaselineReading list" where
  "validate_readings L [] = Inr []"
| "validate_readings L (e # es) =
     (case BaselineReading_init L e of
        Inl err \<Rightarrow> Inl err
      | Inr r \<Rightarrow> (case validate_readings L es of Inl err \<Rightarrow> Inl err | Inr rs \<Rightarrow> Inr (r # rs)))"

text \<open>
  \<^verbatim>\<open>ModeRequest\<close>: the field \<^verbatim>\<open>mode\<close> must match the pattern \<^verbatim>\<open>^(baseline|ml)$\<close>, that is,
  be one of the two words.
\<close>

definition ModeRequest_init :: "string \<Rightarrow> error + string" where
  "ModeRequest_init m = (if m = ''baseline'' \<or> m = ''ml'' then Inr m else Inl ValidationError)"

subsection \<open>switch.py: the orchestrator and its registries\<close>

record store =
  MODE :: string
  HISTORY :: "string \<Rightarrow> BaselineReading list"
  DEVICE_STATE :: "string \<rightharpoonup> DeviceState"
  LAST_RESULTS :: "string \<rightharpoonup> baseline_result"

definition initial_store :: store where
  "initial_store =
     \<lparr> MODE = ''baseline'', HISTORY = (\<lambda>d. []), DEVICE_STATE = Map.empty, LAST_RESULTS = Map.empty \<rparr>"

definition get_mode :: "store \<Rightarrow> string" where
  "get_mode st = MODE st"

definition set_mode :: "string \<Rightarrow> store \<Rightarrow> string \<times> store" where
  "set_mode m st =
     (let new_mode = (if m = ''baseline'' then ''baseline'' else ''ml'')
      in (new_mode, st\<lparr> MODE := new_mode \<rparr>))"

text \<open>The endpoint \<^verbatim>\<open>POST /baseline/mode\<close> of api.py: the body is validated, then the mode is set.\<close>

definition update_mode :: "string \<Rightarrow> store \<Rightarrow> (error + string) \<times> store" where
  "update_mode m st =
     (case ModeRequest_init m of
        Inl e \<Rightarrow> (Inl e, st)
      | Inr v \<Rightarrow> (let (new_mode, st') = set_mode v st in (Inr new_mode, st')))"

definition state_for :: "config \<Rightarrow> string \<Rightarrow> store \<Rightarrow> DeviceState \<times> store" where
  "state_for cfg dev st =
     (case DEVICE_STATE st dev of
        Some state \<Rightarrow> (state, st)
      | None \<Rightarrow>
          (let state = DeviceState_new cfg dev
           in (state, st\<lparr> DEVICE_STATE := (DEVICE_STATE st)(dev \<mapsto> state) \<rparr>)))"

text \<open>\<^verbatim>\<open>deque(maxlen=288).append\<close>: a full buffer drops its oldest entry.\<close>

definition deque_append :: "BaselineReading list \<Rightarrow> BaselineReading \<Rightarrow> BaselineReading list" where
  "deque_append h e = lastn 288 (h @ [e])"

definition or_unknown :: "string option \<Rightarrow> string" where
  "or_unknown d = (case d of None \<Rightarrow> ''unknown'' | Some x \<Rightarrow> if x \<noteq> [] then x else ''unknown'')"

definition history_entry :: "pylib \<Rightarrow> BaselineReading \<Rightarrow> error + BaselineReading" where
  "history_entry L reading =
     (case r_timestamp reading of
        TsDatetime t \<Rightarrow> Inr (reading\<lparr> r_timestamp := TsText (isoformat L t) \<rparr>)
      | _ \<Rightarrow> Inl AttributeError)"

definition record_history :: "pylib \<Rightarrow> BaselineReading \<Rightarrow> store \<Rightarrow> error + store" where
  "record_history L reading st =
     (let dev = or_unknown (r_device_id reading) in
      case history_entry L reading of
        Inl e \<Rightarrow> Inl e
      | Inr entry \<Rightarrow> Inr (st\<lparr> HISTORY := (HISTORY st)(dev := deque_append (HISTORY st dev) entry) \<rparr>))"

definition build_request_from_history :: "pylib \<Rightarrow> string \<Rightarrow> store \<Rightarrow> error + BaselineRequest option" where
  "build_request_from_history L dev st =
     (let history = HISTORY st dev in
      if history = [] then Inr None
      else case validate_readings L history of
             Inl e \<Rightarrow> Inl e
           | Inr rs \<Rightarrow>
               Inr (Some \<lparr> req_device_id = Some dev, readings = rs, req_volume_m3 = None,
                           req_ach = None, req_cout_ppm = None, g_per_person_m3_s = None \<rparr>))"

text \<open>
  The loop of \<^verbatim>\<open>_samples_from_request\<close>: a reading whose conversion raises \<^verbatim>\<open>ValueError\<close> is
  skipped; any other exception leaves the loop.
\<close>

fun samples_from_request :: "pylib \<Rightarrow> BaselineReading list \<Rightarrow> error + Sample list" where
  "samples_from_request L [] = Inr []"
| "samples_from_request L (reading # rest) =
     (case from_mapping L reading of
        Inl (ValueError msg) \<Rightarrow> samples_from_request L rest
      | Inl e \<Rightarrow> Inl e
      | Inr s \<Rightarrow>
          (case samples_from_request L rest of
             Inl e \<Rightarrow> Inl e
           | Inr ss \<Rightarrow> Inr (s # ss)))"

text \<open>Python's \<^verbatim>\<open>a or b\<close> on an optional number: \<^verbatim>\<open>None\<close> and zero are both false.\<close>

definition truthy :: "real option \<Rightarrow> bool" where
  "truthy v = (case v of None \<Rightarrow> False | Some x \<Rightarrow> x \<noteq> 0)"

definition or_else :: "real option \<Rightarrow> real \<Rightarrow> real" where
  "or_else v d = (case v of None \<Rightarrow> d | Some x \<Rightarrow> if x \<noteq> 0 then x else d)"

definition resolve_options ::
  "config \<Rightarrow> string \<Rightarrow> BaselineRequest \<Rightarrow> real option \<Rightarrow> real option \<Rightarrow> real option \<Rightarrow> real option \<Rightarrow>
   store \<Rightarrow> (BaselineOptions \<times> string) \<times> store" where
  "resolve_options cfg dev request o_volume_m3 o_ach o_cout_ppm o_g_per_person st =
     (let (state, st') = state_for cfg dev st;
          resolved_volume =
            or_else o_volume_m3 (or_else (req_volume_m3 request)
              (if ds_volume_m3 state \<noteq> 0 then ds_volume_m3 state else DEFAULT_VOLUME_M3 cfg));
          resolved_cout =
            or_else o_cout_ppm (or_else (req_cout_ppm request)
              (if ds_cout_ppm state \<noteq> 0 then ds_cout_ppm state else DEFAULT_DEVICE_COUT_PPM cfg));
          (resolved_ach, ach_origin) =
            (case o_ach of
               Some a \<Rightarrow> (a, ''provided'')
             | None \<Rightarrow>
                 (case req_ach request of
                    Some a \<Rightarrow> (a, ''provided'')
                  | None \<Rightarrow>
                      (case ds_ach state of
                         Some a \<Rightarrow> (a, if ds_ach_source state \<noteq> [] then ds_ach_source state else ''cached'')
                       | None \<Rightarrow> (DEFAULT_DEVICE_ACH cfg, ''default''))));
          options = \<lparr> volume_m3 = resolved_volume,
                      ach = Some resolved_ach,
                      cout_ppm = resolved_cout,
                      g_person = or_else o_g_per_person
                                   (or_else (g_per_person_m3_s request) (ds_g_person state)) \<rparr>
      in ((options, ach_origin), st'))"

definition compute ::
  "pylib \<Rightarrow> config \<Rightarrow> BaselineRequest \<Rightarrow> real option \<Rightarrow> real option \<Rightarrow> real option \<Rightarrow> real option \<Rightarrow>
   bool \<Rightarrow> store \<Rightarrow> (error + baseline_result) \<times> store" where
  "compute L cfg request o_volume_m3 o_ach o_cout_ppm o_g_per_person update_state st =
     (let dev = or_unknown (req_device_id request);
          (state, st1) = state_for cfg dev st;
          ((options, ach_origin), st2) =
             resolve_options cfg dev request o_volume_m3 o_ach o_cout_ppm o_g_per_person st1
      in case samples_from_request L (readings request) of
           Inl e \<Rightarrow> (Inl e, st2)
         | Inr samples \<Rightarrow>
             if samples = [] then (Inl (ValueError ''No valid readings provided''), st2)
             else
               (case compute_baseline cfg dev samples options (Some state) ach_origin update_state of
                  Inl e \<Rightarrow> (Inl e, st2)
                | Inr (result, updates) \<Rightarrow>
                    (let state' =
                           (if update_state then
                              (update_context state
                                 (if truthy (u_ach updates) then u_ach updates else ds_ach state)
                                 (case u_ach_source updates of
                                    None \<Rightarrow> Some (ds_ach_source state)
                                  | Some src \<Rightarrow> if src \<noteq> [] then Some src else Some (ds_ach_source state))
                                 (Some (if u_volume_m3 updates \<noteq> 0 then u_volume_m3 updates else ds_volume_m3 state))
                                 (Some (if u_cout_ppm updates \<noteq> 0 then u_cout_ppm updates else ds_cout_ppm state))
                                 (u_nowcast_pm25 updates)
                                 (Some (u_timestamp updates))
                                 (Some (g_person options)))
                              \<lparr> smoke := u_smoke_state updates \<rparr>
                            else state);
                         st3 = (if update_state
                                then st2\<lparr> DEVICE_STATE := (DEVICE_STATE st2)(dev \<mapsto> state') \<rparr>
                                else st2)
                     in (Inr result, st3\<lparr> LAST_RESULTS := (LAST_RESULTS st3)(dev \<mapsto> result) \<rparr>))))"

definition compute_from_payload ::
  "pylib \<Rightarrow> config \<Rightarrow> BaselineReading \<Rightarrow> real option \<Rightarrow> real option \<Rightarrow> real option \<Rightarrow> real option \<Rightarrow>
   store \<Rightarrow> (error + baseline_result) \<times> store" where
  "compute_from_payload L cfg payload o_volume_m3 o_ach o_cout_ppm o_g_per_person st =
     (case BaselineReading_init L payload of
        Inl e \<Rightarrow> (Inl e, st)
      | Inr reading \<Rightarrow>
          (case record_history L reading st of
             Inl e \<Rightarrow> (Inl e, st)
           | Inr st1 \<Rightarrow>
               (let dev = or_unknown (r_device_id reading) in
                case build_request_from_history L dev st1 of
                  Inl e \<Rightarrow> (Inl e, st1)
                | Inr req_opt \<Rightarrow>
                    (let request =
                           (case req_opt of
                              Some r \<Rightarrow> r
                            | None \<Rightarrow> \<lparr> req_device_id = Some dev, readings = [reading],
                                         req_volume_m3 = None, req_ach = None, req_cout_ppm = None,
                                         g_per_person_m3_s = None \<rparr>)
                     in compute L cfg request o_volume_m3 o_ach o_cout_ppm o_g_per_person False st1))))"

text \<open>
  \<^verbatim>\<open>BaselineRequest(**payload)\<close>: pydantic validates every reading of the list, and the
  request is refused as a whole when one of them fails.
\<close>

definition BaselineRequest_init :: "pylib \<Rightarrow> BaselineRequest \<Rightarrow> error + BaselineRequest" where
  "BaselineRequest_init L payload =
     (case validate_readings L (readings payload) of
        Inl e \<Rightarrow> Inl e
      | Inr rs \<Rightarrow> Inr (payload\<lparr> readings := rs \<rparr>))"

text \<open>The loop of \<^verbatim>\<open>record_manual_request\<close> that refills the cleared history buffer.\<close>

fun append_entries ::
  "pylib \<Rightarrow> BaselineReading list \<Rightarrow> BaselineReading list \<Rightarrow> error option \<times> BaselineReading list" where
  "append_entries L [] h = (None, h)"
| "append_entries L (reading # rest) h =
     (case history_entry L reading of
        Inl e \<Rightarrow> (Some e, h)
      | Inr entry \<Rightarrow> append_entries L rest (deque_append h entry))"

definition record_manual_request ::
  "pylib \<Rightarrow> BaselineRequest \<Rightarrow> baseline_result \<Rightarrow> store \<Rightarrow> error option \<times> store" where
  "record_manual_request L request result st =
     (let fallback = (if res_device_id result \<noteq> [] then res_device_id result else ''unknown'');
          dev = (case req_device_id request of
                   None \<Rightarrow> fallback
                 | Some d \<Rightarrow> if d \<noteq> [] then d else fallback);
          (err, h) = append_entries L (readings request) [];
          st1 = st\<lparr> HISTORY := (HISTORY st)(dev := h) \<rparr>
      in case err of
           Some e \<Rightarrow> (Some e, st1)
         | None \<Rightarrow> (None, st1\<lparr> LAST_RESULTS := (LAST_RESULTS st1)(dev \<mapsto> result) \<rparr>))"

definition compute_request_payload ::
  "pylib \<Rightarrow> config \<Rightarrow> BaselineRequest \<Rightarrow> store \<Rightarrow> (error + baseline_result) \<times> store" where
  "compute_request_payload L cfg payload st =
     (case BaselineRequest_init L payload of
        Inl e \<Rightarrow> (Inl e, st)
      | Inr request \<Rightarrow>
          (case compute L cfg request None None None None True st of
             (Inl e, st1) \<Rightarrow> (Inl e, st1)
           | (Inr result, st1) \<Rightarrow>
               (case record_manual_request L request result st1 of
                  (Some e, st2) \<Rightarrow> (Inl e, st2)
                | (None, st2) \<Rightarrow> (Inr result, st2))))"

definition get_last :: "string \<Rightarrow> store \<Rightarrow> baseline_result option" where
  "get_last dev st = LAST_RESULTS st dev"

subsection \<open>Fixtures for running the model\<close>

text \<open>
  The reading of the end-to-end scenario of the specification, for the device
  \<^verbatim>\<open>office_iaq\<close>, and the batch request that holds it alone.
\<close>

definition office_reading :: "datetime \<Rightarrow> BaselineReading" where
  "office_reading t =
     \<lparr> r_timestamp = TsDatetime t, r_device_id = Some ''office_iaq'', r_pm25 = Some 10,
       r_co2 = Some 900, r_voc = Some 300, r_pm01 = None, r_pm4 = None, r_pm10 = None,
       r_temp_c = Some 22, r_rh = Some 45 \<rparr>"

definition office_request :: "datetime \<Rightarrow> BaselineRequest" where
  "office_request t =
     \<lparr> req_device_id = Some ''office_iaq'', readings = [office_reading t], req_volume_m3 = None,
       req_ach = None, req_cout_ppm = None, g_per_person_m3_s = None \<rparr>"

text \<open>
  A stand-in for the library functions, to run the model on concrete inputs: it strips
  blanks, reads numbers as seconds and knows the text of a single instant.
\<close>

definition stub_lib :: pylib where
  "stub_lib =
     \<lparr> str_strip = (\<lambda>s. rev (dropWhile (\<lambda>c. c = CHR '' '') (rev (dropWhile (\<lambda>c. c = CHR '' '') s)))),
       fromtimestamp = (\<lambda>x. Inr x),
       fromisoformat = (\<lambda>s. if s = ''2024-01-01T00:00:00'' then Some 0 else None),
       strptime = (\<lambda>s fmt. None),
       isoformat = (\<lambda>t. ''2024-01-01T00:00:00''),
       pydantic_datetime =
         (\<lambda>v. case v of
                TsDatetime t \<Rightarrow> Some t
              | TsNone \<Rightarrow> None
              | TsNumber x \<Rightarrow> Some x
              | TsText s \<Rightarrow> if s = ''2024-01-01T00:00:00'' then Some 0 else None) \<rparr>"

section \<open>Properties\<close>

subsection \<open>NowCast smoothing\<close>

lemma non_null_map_Some: "non_null (map Some vs) = vs"
  by (induction vs) (simp_all add: non_null_def)

lemma lastn_nonempty: "xs \<noteq> [] \<Longrightarrow> 0 < n \<Longrightarrow> lastn n xs \<noteq> []"
  by (cases xs) (auto simp: lastn_def)

text \<open>The sum of the weights only grows along the loop, and is positive after one round.\<close>

lemma nowcast_loop_mono:
  "0 < w \<Longrightarrow> den \<le> snd (nowcast_loop w i vs (num, den))"
proof (induction vs arbitrary: i num den)
  case Nil
  then show ?case by simp
next
  case (Cons v vs)
  have "0 < w ^ i" using Cons.prems by simp
  moreover have "den + w ^ i \<le> snd (nowcast_loop w (Suc i) vs (num + w ^ i * v, den + w ^ i))"
    using Cons.IH[OF Cons.prems] .
  ultimately show ?case by simp
qed

lemma nowcast_loop_pos:
  assumes "0 < w" "vs \<noteq> []" "0 \<le> den"
  shows "0 < snd (nowcast_loop w i vs (num, den))"
proof (cases vs)
  case Nil
  then show ?thesis using assms by simp
next
  case (Cons v vs')
  have wi: "0 < w ^ i" using assms(1) by simp
  have "den + w ^ i \<le> snd (nowcast_loop w (Suc i) vs' (num + w ^ i * v, den + w ^ i))"
    using nowcast_loop_mono[OF assms(1)] .
  then show ?thesis using Cons wi assms(3) by simp
qed

text \<open>
  The loop keeps the weighted sum between \<open>lo\<close> and \<open>hi\<close> times the sum of the weights,
  when every value lies between \<open>lo\<close> and \<open>hi\<close> and the weight is positive.
\<close>

lemma nowcast_loop_bounds:
  assumes "0 < w" "\<forall>v\<in>set vs. lo \<le> v \<and> v \<le> hi"
    and "lo * den \<le> num" "num \<le> hi * den"
  shows "lo * snd (nowcast_loop w i vs (num, den)) \<le> fst (nowcast_loop w i vs (num, den))
       \<and> fst (nowcast_loop w i vs (num, den)) \<le> hi * snd (nowcast_loop w i vs (num, den))"
  using assms
proof (induction vs arbitrary: i num den)
  case Nil
  then show ?case by simp
next
  case (Cons v vs)
  have wi: "0 < w ^ i" using Cons.prems(1) by simp
  have v: "lo \<le> v" "v \<le> hi" using Cons.prems(2) by simp_all
  have a: "lo * (den + w ^ i) \<le> num + w ^ i * v"
  proof -
    have "lo * w ^ i \<le> w ^ i * v" using wi v(1) by (simp add: mult.commute)
    then show ?thesis using Cons.prems(3) by (simp add: algebra_simps)
  qed
  have b: "num + w ^ i * v \<le> hi * (den + w ^ i)"
  proof -
    have "w ^ i * v \<le> hi * w ^ i" using wi v(2) by (simp add: mult.commute)
    then show ?thesis using Cons.prems(4) by (simp add: algebra_simps)
  qed
  have rest: "\<forall>v\<in>set vs. lo \<le> v \<and> v \<le> hi" using Cons.prems(2) by simp
  from Cons.IH[OF Cons.prems(1) rest a b] show ?case by simp
qed

lemma nowcast_general:
  assumes "tail \<noteq> []"
  shows "\<exists>r. compute_nowcast_pm25 (map Some tail) = Some r
           \<and> Min (set (lastn 12 tail)) \<le> r \<and> r \<le> Max (set (lastn 12 tail))"
proof (cases "length tail = 1")
  case True
  then obtain v where tl: "tail = [v]" by (cases tail) simp_all
  show ?thesis unfolding tl by (simp add: compute_nowcast_pm25_def non_null_def lastn_def)
next
  case False
  define t where "t = lastn 12 tail"
  define w where "w = max (0.5::real) (1 - (Max (set t) - Min (set t)) / max (Max (set t)) 0.000001)"
  define res where "res = nowcast_loop w 0 (rev t) (0, 0)"
  have tne: "t \<noteq> []" using assms by (simp add: t_def lastn_nonempty)
  have wpos: "0 < w" by (simp add: w_def)
  have bnd: "\<forall>v\<in>set (rev t). Min (set t) \<le> v \<and> v \<le> Max (set t)" by simp
  have pos: "0 < snd res" unfolding res_def
    using nowcast_loop_pos[OF wpos, of "rev t" 0 0 0] tne by simp
  have b: "Min (set t) * snd res \<le> fst res \<and> fst res \<le> Max (set t) * snd res"
    unfolding res_def using nowcast_loop_bounds[OF wpos bnd, of 0 0 0] by simp
  have r1: "Min (set t) \<le> fst res / snd res" using b pos by (simp add: pos_le_divide_eq)
  have r2: "fst res / snd res \<le> Max (set t)" using b pos by (simp add: pos_divide_le_eq)
  have eq: "compute_nowcast_pm25 (map Some tail) = Some (fst res / snd res)"
    using assms False pos
    by (simp add: compute_nowcast_pm25_def non_null_map_Some Let_def split_beta
        res_def w_def t_def)
  show ?thesis using eq r1 r2 by (simp add: t_def)
qed

lemma nowcast_constant:
  assumes "0 < n"
  shows "compute_nowcast_pm25 (map Some (replicate n c)) = Some c"
proof -
  have ne: "replicate n c \<noteq> []" using assms by simp
  have "0 < n - (n - 12)" using assms by simp
  then have s: "set (lastn 12 (replicate n c)) = {c}" by (simp add: lastn_def)
  from nowcast_general[OF ne] obtain r where
    r: "compute_nowcast_pm25 (map Some (replicate n c)) = Some r"
       "Min (set (lastn 12 (replicate n c))) \<le> r" "r \<le> Max (set (lastn 12 (replicate n c)))"
    by blast
  from r(2,3) have "r = c" unfolding s by simp
  with r(1) show ?thesis by simp
qed

text \<open>
  In exact arithmetic the value of \<^verbatim>\<open>compute_nowcast_pm25\<close> on a non-empty sequence lies
  between the minimum and the maximum of the last (at most) twelve values: it is a weighted
  mean whose weights \<open>weight ^ i\<close> are positive, since \<open>weight \<ge> 0.5\<close>. A single value is
  returned unchanged, and a constant series gives its constant.
\<close>

lemma nowcast_exact_between:
  "(vs \<noteq> [] \<longrightarrow>
      (\<exists>r. compute_nowcast_pm25 (map Some vs) = Some r
         \<and> Min (set (lastn 12 vs)) \<le> r \<and> r \<le> Max (set (lastn 12 vs))))
   \<and> compute_nowcast_pm25 [Some v] = Some v
   \<and> (0 < n \<longrightarrow> compute_nowcast_pm25 (map Some (replicate n c)) = Some c)"
proof (intro conjI impI)
  assume "vs \<noteq> []"
  then show "\<exists>r. compute_nowcast_pm25 (map Some vs) = Some r
         \<and> Min (set (lastn 12 vs)) \<le> r \<and> r \<le> Max (set (lastn 12 vs))"
    by (rule nowcast_general)
next
  show "compute_nowcast_pm25 [Some v] = Some v"
    by (simp add: compute_nowcast_pm25_def non_null_def)
next
  assume "0 < n"
  then show "compute_nowcast_pm25 (map Some (replicate n c)) = Some c"
    by (rule nowcast_constant)
qed

lemma nowcast_example:
  "compute_nowcast_pm25 [Some 10, None, Some 30, Some 20] = Some (150 / 7)"
  by (simp add: compute_nowcast_pm25_def non_null_def lastn_def)

subsection \<open>NowCast smoothing in binary64\<close>

text \<open>Rounding to the nearest integer is off by at most one half, and fixes the integers.\<close>

lemma min_normal_pos: "0 < min_normal" by (simp add: min_normal_def)

lemma rne_error: "\<bar>of_int (rne y) - y\<bar> \<le> 1/2"
  unfolding rne_def Let_def by (auto simp: abs_if) linarith+

lemma rne_int: "rne (of_int k) = k"
  by (simp add: rne_def)

lemma rne_floor: "\<lfloor>y\<rfloor> \<le> rne y"
  by (simp add: rne_def Let_def)

lemma rne_ge: "of_int k \<le> y \<Longrightarrow> k \<le> rne y"
proof -
  assume "of_int k \<le> y"
  then have "k \<le> \<lfloor>y\<rfloor>" by (simp add: le_floor_iff)
  with rne_floor[of y] show ?thesis by linarith
qed

lemma fl64_exp_bounds:
  assumes "x \<noteq> 0"
  shows "2 powi (fl64_exp x + 52) \<le> max \<bar>x\<bar> (min_normal)"
    and "- 1074 \<le> fl64_exp x"
proof -
  have pos: "0 < \<bar>x\<bar>" using assms by simp
  define l where "l = \<lfloor>log 2 \<bar>x\<bar>\<rfloor>"
  have "2 powr (of_int l) \<le> \<bar>x\<bar>"
    using floor_log_eq_powr_iff[of "\<bar>x\<bar>" 2 l] pos by (simp add: l_def)
  then have l: "2 powi l \<le> \<bar>x\<bar>" by (simp add: powr_real_of_int')
  show "- 1074 \<le> fl64_exp x" by (simp add: fl64_exp_def)
  show "2 powi (fl64_exp x + 52) \<le> max \<bar>x\<bar> (min_normal)"
  proof (cases "l \<ge> - 1022")
    case True
    then have "fl64_exp x + 52 = l" by (simp add: fl64_exp_def l_def)
    then show ?thesis using l by simp
  next
    case False
    then have "fl64_exp x + 52 = - 1022" by (simp add: fl64_exp_def l_def)
    then have "(2::real) powi (fl64_exp x + 52) = min_normal" by (simp only: min_normal_def)
    then show ?thesis by simp
  qed
qed

lemma fl64_error_exp:
  assumes "x \<noteq> 0"
  shows "\<bar>fl64 x - x\<bar> \<le> 2 powi (fl64_exp x) / 2"
proof -
  define e where "e = fl64_exp x"
  define p where "p = (2::real) powi e"
  have p: "0 < p" by (simp add: p_def)
  have "fl64 x - x = (of_int (rne (x / p)) - x / p) * p"
    using assms p by (simp add: fl64_def e_def p_def field_simps)
  then have "\<bar>fl64 x - x\<bar> = \<bar>of_int (rne (x / p)) - x / p\<bar> * p"
    using p by (simp add: abs_mult)
  also have "\<dots> \<le> 1/2 * p"
    using rne_error[of "x / p"] p by (intro mult_right_mono) simp_all
  finally show ?thesis by (simp add: p_def e_def)
qed

lemma fl64_error:
  "\<bar>fl64 x - x\<bar> \<le> (\<bar>x\<bar> + min_normal) / 2 ^ 53"
proof (cases "x = 0")
  case True
  then show ?thesis using min_normal_pos by (simp add: fl64_def)
next
  case False
  have "(2::real) powi (fl64_exp x) = 2 powi (fl64_exp x + 52) / 2 ^ 52"
    by (simp add: power_int_add)
  also have "\<dots> \<le> max \<bar>x\<bar> (min_normal) / 2 ^ 52"
    using fl64_exp_bounds(1)[OF False] by (intro divide_right_mono) simp_all
  also have "\<dots> \<le> (\<bar>x\<bar> + min_normal) / 2 ^ 52"
    using min_normal_pos by (intro divide_right_mono) simp_all
  finally have "2 powi (fl64_exp x) / 2 \<le> (\<bar>x\<bar> + min_normal) / 2 ^ 52 / 2" by simp
  then show ?thesis using fl64_error_exp[OF False] by simp
qed

lemma fl64_error_normal:
  assumes "min_normal \<le> \<bar>x\<bar>"
  shows "\<bar>fl64 x - x\<bar> \<le> \<bar>x\<bar> / 2 ^ 53"
proof -
  have nz: "x \<noteq> 0" using assms min_normal_pos by auto
  have "(2::real) powi (fl64_exp x) = 2 powi (fl64_exp x + 52) / 2 ^ 52"
    by (simp add: power_int_add)
  also have "\<dots> \<le> max \<bar>x\<bar> (min_normal) / 2 ^ 52"
    using fl64_exp_bounds(1)[OF nz] by (intro divide_right_mono) simp_all
  also have "max \<bar>x\<bar> (min_normal) = \<bar>x\<bar>" using assms by simp
  finally have "2 powi (fl64_exp x) / 2 \<le> \<bar>x\<bar> / 2 ^ 52 / 2" by simp
  then show ?thesis using fl64_error_exp[OF nz] by simp
qed


lemma fl64_ge_1:
  assumes "1 \<le> x"
  shows "1 \<le> fl64 x"
proof -
  have nz: "x \<noteq> 0" "0 < \<bar>x\<bar>" using assms by auto
  define l where "l = \<lfloor>log 2 \<bar>x\<bar>\<rfloor>"
  have l0: "0 \<le> l" using assms by (simp add: l_def)
  have "2 powr (of_int l) \<le> \<bar>x\<bar>"
    using floor_log_eq_powr_iff[of "\<bar>x\<bar>" 2 l] nz by (simp add: l_def)
  then have l: "2 powi l \<le> x" using assms by (simp add: powr_real_of_int')
  have e: "fl64_exp x = l - 52" using l0 by (simp add: fl64_exp_def l_def)
  define p where "p = (2::real) powi (l - 52)"
  have p: "0 < p" by (simp add: p_def)
  have "p * 2 ^ 52 = 2 powi l" by (simp add: p_def power_int_diff)
  then have "of_int (2 ^ 52) \<le> x / p" using l p by (simp add: field_simps)
  then have "(2::int) ^ 52 \<le> rne (x / p)" by (rule rne_ge)
  then have "(2::real) ^ 52 \<le> of_int (rne (x / p))"
    by (metis of_int_le_iff of_int_numeral of_int_power)
  then have m: "2 ^ 52 * p \<le> of_int (rne (x / p)) * p" using p by (intro mult_right_mono) simp_all
  have "(1::real) \<le> 2 powi l" using l0 by (simp add: one_le_power_int)
  also have "\<dots> = 2 ^ 52 * p" by (simp add: p_def power_int_diff)
  also note m
  finally have "1 \<le> of_int (rne (x / p)) * p" .
  moreover have "fl64 x = of_int (rne (x / p)) * p" using nz by (simp add: fl64_def e p_def)
  ultimately show ?thesis by simp
qed

lemma fl64_eval:
  assumes "x \<noteq> 0" "- 1022 \<le> k" "2 powi k \<le> \<bar>x\<bar>" "\<bar>x\<bar> < 2 powi (k + 1)"
  shows "fl64 x = of_int (rne (x / 2 powi (k - 52))) * 2 powi (k - 52)"
proof -
  have pos: "0 < \<bar>x\<bar>" using assms(1) by simp
  have a: "2 powr (of_int k) = (2::real) powi k" by (simp add: powr_real_of_int')
  have b: "2 powr (of_int k + 1) = (2::real) powi (k + 1)"
    using powr_real_of_int'[of 2 "k + 1"] by simp
  have c: "2 powr (of_int k) \<le> \<bar>x\<bar>" using assms(3) a by simp
  have d: "\<bar>x\<bar> < 2 powr (of_int k + 1)" using assms(4) b by simp
  have "\<lfloor>log 2 \<bar>x\<bar>\<rfloor> = k"
    using floor_log_eq_powr_iff[of "\<bar>x\<bar>" 2 k] pos c d by simp
  then have "fl64_exp x = k - 52" using assms(2) by (simp add: fl64_exp_def)
  then show ?thesis using assms(1) by (simp add: fl64_def)
qed

lemma fl64_0: "fl64 0 = 0" by (simp add: fl64_def)

lemma fl64_1: "fl64 1 = 1"
  using fl64_eval[of 1 0] by (simp add: rne_def)

lemma fl64_2: "fl64 2 = 2"
  using fl64_eval[of 2 1] by (simp add: rne_def)

lemma fl64_3: "fl64 3 = 3"
  using fl64_eval[of 3 1] by (simp add: rne_def)

text \<open>
  One round of the accumulation. If the numerator is within \<open>c\<close> roundings of
  \<open>[lo * den, hi * den]\<close>, then after the round it is within \<open>c + 5\<close> roundings of the same
  interval over the new sum of weights, which is at least 1.
\<close>

lemma min_normal_le_1: "min_normal \<le> 1"
proof -
  have "(2::real) powi (- 1022) \<le> 2 powi 0" by (rule power_int_increasing) simp_all
  then show ?thesis by (simp only: min_normal_def power_int_0_right)
qed

text \<open>One round of the loop.\<close>

lemma f64_step:
  fixes num den w v lo hi M c :: real
  assumes den: "0 \<le> den" and w: "0 < w" and D1: "1 \<le> den + w"
    and v: "lo \<le> v" "v \<le> hi" and M: "\<bar>lo\<bar> \<le> M" "\<bar>hi\<bar> \<le> M"
    and c: "0 \<le> c" "c \<le> 100"
    and up: "num \<le> (hi + c * ((M + min_normal) / 2 ^ 53)) * den"
    and lw: "(lo - c * ((M + min_normal) / 2 ^ 53)) * den \<le> num"
  shows "1 \<le> fl64 (den + w)"
    and "fl64 (num + fl64 (w * v)) \<le> (hi + (c + 5) * ((M + min_normal) / 2 ^ 53)) * fl64 (den + w)"
    and "(lo - (c + 5) * ((M + min_normal) / 2 ^ 53)) * fl64 (den + w) \<le> fl64 (num + fl64 (w * v))"
proof -
  define U where "U = (1::real) / 2 ^ 53"
  define Mp where "Mp = M + min_normal"
  define E where "E = Mp / 2 ^ 53"
  define D where "D = den + w"
  define t where "t = fl64 (w * v)"
  define S where "S = num + t"
  define n' where "n' = fl64 S"
  define d' where "d' = fl64 D"
  have U: "0 < U" "U \<le> 1" by (simp_all add: U_def)
  have M0: "0 \<le> M" using M(1) by linarith
  have mu: "0 < min_normal" by (rule min_normal_pos)
  have Mp: "0 < Mp" "M \<le> Mp" "min_normal \<le> Mp" using M0 mu by (simp_all add: Mp_def)
  have E: "0 < E" "E = U * Mp" using Mp by (simp_all add: E_def U_def)
  have D: "1 \<le> D" "den \<le> D" "w \<le> D" "0 < D" using D1 den w by (simp_all add: D_def)
  have vM: "\<bar>v\<bar> \<le> M" using v M by linarith
  show d1: "1 \<le> fl64 (den + w)" using D1 by (rule fl64_ge_1)
  have "\<bar>w * v\<bar> \<le> w * M" using vM w by (simp add: abs_mult)
  also have "\<dots> \<le> D * M" using D(3) M0 by (rule mult_right_mono)
  finally have wv: "\<bar>w * v\<bar> \<le> D * M" .
  have "min_normal \<le> D * min_normal" using D(1) mu by simp
  with wv have "\<bar>w * v\<bar> + min_normal \<le> D * Mp" by (simp add: Mp_def algebra_simps)
  then have "(\<bar>w * v\<bar> + min_normal) / 2 ^ 53 \<le> D * Mp / 2 ^ 53" by (rule divide_right_mono) simp
  also have "D * Mp / 2 ^ 53 = E * D" by (simp add: E_def)
  finally have "(\<bar>w * v\<bar> + min_normal) / 2 ^ 53 \<le> E * D" .
  with fl64_error[of "w * v"] have a: "\<bar>t - w * v\<bar> \<le> E * D" unfolding t_def by linarith
  have whi: "w * v \<le> w * hi" using v(2) w by simp
  have wlo: "w * lo \<le> w * v" using v(1) w by simp
  have t_up: "t \<le> w * hi + E * D" using a whi by linarith
  have t_lw: "w * lo - E * D \<le> t" using a wlo by linarith
  have cE: "c * E * den \<le> c * E * D" using D(2) c(1) E(1) by (intro mult_left_mono) simp_all
  have up': "num \<le> hi * den + c * E * den" using up by (simp add: E_def Mp_def algebra_simps)
  have lw': "lo * den - c * E * den \<le> num" using lw by (simp add: E_def Mp_def algebra_simps)
  have e1: "hi * D + (c + 1) * E * D = hi * den + w * hi + c * E * D + E * D"
    by (simp add: D_def algebra_simps)
  have e2: "lo * D - (c + 1) * E * D = lo * den + w * lo - c * E * D - E * D"
    by (simp add: D_def algebra_simps)
  have S_up: "S \<le> hi * D + (c + 1) * E * D"
    unfolding e1 S_def using up' t_up cE by linarith
  have S_lw: "lo * D - (c + 1) * E * D \<le> S"
    unfolding e2 S_def using lw' t_lw cE by linarith
  have "hi \<le> M" "- M \<le> lo" using M by linarith+
  then have "hi * D \<le> M * D" "(- M) * D \<le> lo * D" using D(4) by (simp_all only: mult_le_cancel_right_pos)
  then have hiD: "hi * D \<le> M * D" "- (M * D) \<le> lo * D" by simp_all
  have cED: "0 \<le> (c + 1) * E * D" using c(1) E(1) D(4) by simp
  have Sabs: "\<bar>S\<bar> \<le> M * D + (c + 1) * E * D" using S_up S_lw hiD by linarith
  have "min_normal \<le> min_normal * D" using D(1) mu by simp
  with Sabs have "\<bar>S\<bar> + min_normal \<le> Mp * D + (c + 1) * E * D" by (simp add: Mp_def algebra_simps)
  then have "(\<bar>S\<bar> + min_normal) / 2 ^ 53 \<le> (Mp * D + (c + 1) * E * D) / 2 ^ 53"
    by (rule divide_right_mono) simp
  also have "\<dots> = E * D + (c + 1) * U * (E * D)" by (simp add: E_def U_def field_simps)
  also have "\<dots> \<le> E * D + 1 * (E * D)"
  proof -
    have "(c + 1) * U \<le> 1" using c by (simp add: U_def)
    moreover have "0 \<le> E * D" using E(1) D(4) by simp
    ultimately have "(c + 1) * U * (E * D) \<le> 1 * (E * D)" by (rule mult_right_mono)
    then show ?thesis by linarith
  qed
  finally have "(\<bar>S\<bar> + min_normal) / 2 ^ 53 \<le> E * D + 1 * (E * D)" .
  with fl64_error[of S] have b: "\<bar>n' - S\<bar> \<le> 2 * (E * D)" unfolding n'_def by linarith
  have e3: "(c + 3) * E * D = (c + 1) * E * D + 2 * (E * D)" by (simp add: algebra_simps)
  have n_up: "n' \<le> hi * D + (c + 3) * E * D" unfolding e3 using b S_up by linarith
  have n_lw: "lo * D - (c + 3) * E * D \<le> n'" unfolding e3 using b S_lw by linarith
  have "min_normal \<le> \<bar>D\<bar>" using D(1) min_normal_le_1 by linarith
  from fl64_error_normal[OF this] have "\<bar>d' - D\<bar> \<le> \<bar>D\<bar> / 2 ^ 53" by (simp only: d'_def)
  also have "\<bar>D\<bar> / 2 ^ 53 = U * D" using D(4) by (simp add: U_def)
  finally have dd: "\<bar>d' - D\<bar> \<le> U * D" .
  have c5: "(c + 5) * E \<le> Mp"
  proof -
    have "(c + 5) * U \<le> 1" using c by (simp add: U_def)
    then have "(c + 5) * U * Mp \<le> 1 * Mp" using Mp(1) by (intro mult_right_mono) simp_all
    then show ?thesis by (simp add: E(2) mult.assoc)
  qed
  have c5pos: "0 \<le> (c + 5) * E" using c(1) E(1) by simp
  {
    fix g :: real assume g: "\<bar>g\<bar> \<le> 2 * Mp"
    have "\<bar>g * (d' - D)\<bar> \<le> (2 * Mp) * (U * D)"
      unfolding abs_mult using g dd by (intro mult_mono) simp_all
    also have "(2 * Mp) * (U * D) = 2 * (E * D)" by (simp add: E(2))
    also have "g * (d' - D) = g * d' - g * D" by (simp add: algebra_simps)
    finally have "\<bar>g * d' - g * D\<bar> \<le> 2 * (E * D)" .
  } note prod = this
  have g1: "\<bar>hi + (c + 5) * E\<bar> \<le> 2 * Mp" using M(2) Mp(2) c5 c5pos by linarith
  have g2: "\<bar>lo - (c + 5) * E\<bar> \<le> 2 * Mp" using M(1) Mp(2) c5 c5pos by linarith
  have e4: "(hi + (c + 5) * E) * D - 2 * (E * D) = hi * D + (c + 3) * E * D"
    "(lo - (c + 5) * E) * D + 2 * (E * D) = lo * D - (c + 3) * E * D" by (simp_all add: algebra_simps)
  have "n' \<le> (hi + (c + 5) * E) * D - 2 * (E * D)" unfolding e4 using n_up .
  also have "\<dots> \<le> (hi + (c + 5) * E) * d'" using prod[OF g1] by linarith
  finally show "fl64 (num + fl64 (w * v)) \<le> (hi + (c + 5) * ((M + min_normal) / 2 ^ 53)) * fl64 (den + w)"
    by (simp add: n'_def S_def t_def d'_def D_def E_def Mp_def)
  have "(lo - (c + 5) * E) * d' \<le> (lo - (c + 5) * E) * D + 2 * (E * D)" using prod[OF g2] by linarith
  also have "\<dots> \<le> n'" unfolding e4 using n_lw .
  finally show "(lo - (c + 5) * ((M + min_normal) / 2 ^ 53)) * fl64 (den + w) \<le> fl64 (num + fl64 (w * v))"
    by (simp add: n'_def S_def t_def d'_def D_def E_def Mp_def)
qed

lemma f64_loop:
  fixes lo hi M :: real
  assumes M: "\<bar>lo\<bar> \<le> M" "\<bar>hi\<bar> \<le> M"
  shows "\<lbrakk> \<forall>v\<in>set vs. lo \<le> v \<and> v \<le> hi;
          \<forall>j. i \<le> j \<and> j < i + length vs \<longrightarrow> 0 < pw weight j;
          0 \<le> den; vs \<noteq> [] \<longrightarrow> 1 \<le> den + pw weight i;
          0 \<le> c; c + 5 * real (length vs) \<le> 100;
          num \<le> (hi + c * ((M + min_normal) / 2 ^ 53)) * den;
          (lo - c * ((M + min_normal) / 2 ^ 53)) * den \<le> num \<rbrakk>
     \<Longrightarrow> (case nowcast_loop_f64 pw weight i vs (num, den) of (n', d') \<Rightarrow>
            n' \<le> (hi + (c + 5 * real (length vs)) * ((M + min_normal) / 2 ^ 53)) * d'
          \<and> (lo - (c + 5 * real (length vs)) * ((M + min_normal) / 2 ^ 53)) * d' \<le> n'
          \<and> (vs \<noteq> [] \<longrightarrow> 1 \<le> d'))"
proof (induction vs arbitrary: i num den c)
  case Nil
  then show ?case by simp
next
  case (Cons v vs)
  define w where "w = pw weight i"
  define n1 where "n1 = fl64 (num + fl64 (w * v))"
  define d1 where "d1 = fl64 (den + w)"
  have w: "0 < w" using Cons.prems(2) by (simp add: w_def)
  have D1: "1 \<le> den + w" using Cons.prems(4) by (simp add: w_def)
  have v: "lo \<le> v" "v \<le> hi" using Cons.prems(1) by simp_all
  have c100: "c \<le> 100" using Cons.prems(6) by simp
  note st = f64_step[OF Cons.prems(3) w D1 v M Cons.prems(5) c100 Cons.prems(7) Cons.prems(8)]
  have d1: "1 \<le> d1" using st(1) by (simp add: d1_def)
  have a1: "\<forall>v\<in>set vs. lo \<le> v \<and> v \<le> hi" using Cons.prems(1) by simp
  have a2: "\<forall>j. Suc i \<le> j \<and> j < Suc i + length vs \<longrightarrow> 0 < pw weight j"
    using Cons.prems(2) by simp
  have a3: "0 \<le> d1" using d1 by simp
  have a4: "vs \<noteq> [] \<longrightarrow> 1 \<le> d1 + pw weight (Suc i)"
  proof
    assume "vs \<noteq> []"
    then have "0 < length vs" by simp
    then have "0 < pw weight (Suc i)" using a2 by simp
    then show "1 \<le> d1 + pw weight (Suc i)" using d1 by simp
  qed
  have a5: "0 \<le> c + 5" using Cons.prems(5) by simp
  have a6: "(c + 5) + 5 * real (length vs) \<le> 100" using Cons.prems(6) by simp
  have a7: "n1 \<le> (hi + (c + 5) * ((M + min_normal) / 2 ^ 53)) * d1"
    using st(2) by (simp only: n1_def d1_def)
  have a8: "(lo - (c + 5) * ((M + min_normal) / 2 ^ 53)) * d1 \<le> n1"
    using st(3) by (simp only: n1_def d1_def)
  note ih = Cons.IH[OF a1 a2 a3 a4 a5 a6 a7 a8]
  have e: "c + 5 * real (length (v # vs)) = (c + 5) + 5 * real (length vs)" by simp
  have r: "nowcast_loop_f64 pw weight i (v # vs) (num, den) = nowcast_loop_f64 pw weight (Suc i) vs (n1, d1)"
    by (simp add: Let_def w_def n1_def d1_def)
  obtain n' d' where nd: "nowcast_loop_f64 pw weight (Suc i) vs (n1, d1) = (n', d')" by (cases "nowcast_loop_f64 pw weight (Suc i) vs (n1, d1)")
  have b: "n' \<le> (hi + ((c + 5) + 5 * real (length vs)) * ((M + min_normal) / 2 ^ 53)) * d'"
    "(lo - ((c + 5) + 5 * real (length vs)) * ((M + min_normal) / 2 ^ 53)) * d' \<le> n'"
    "vs \<noteq> [] \<longrightarrow> 1 \<le> d'"
    using ih unfolding nd by simp_all
  have d': "1 \<le> d'"
  proof (cases vs)
    case Nil
    then show ?thesis using nd d1 by simp
  next
    case (Cons a list)
    then show ?thesis using b(3) by simp
  qed
  show ?case unfolding r nd e using b(1,2) d' by simp
qed

lemma lastn_props:
  "set (lastn n xs) \<subseteq> set xs" "length (lastn n xs) \<le> n"
  by (auto simp: lastn_def dest: in_set_dropD)

lemma f64_final:
  fixes lo hi M n' d' K :: real
  assumes M: "\<bar>lo\<bar> \<le> M" "\<bar>hi\<bar> \<le> M" and K: "0 \<le> K" "K \<le> 60" and d: "1 \<le> d'"
    and up: "n' \<le> (hi + K * ((M + min_normal) / 2 ^ 53)) * d'"
    and lw: "(lo - K * ((M + min_normal) / 2 ^ 53)) * d' \<le> n'"
  shows "lo - (M + min_normal) / 2 ^ 47 \<le> fl64 (n' / d')"
    and "fl64 (n' / d') \<le> hi + (M + min_normal) / 2 ^ 47"
proof -
  define E where "E = (M + min_normal) / 2 ^ 53"
  define x where "x = n' / d'"
  have M0: "0 \<le> M" using M(1) by linarith
  have mu: "0 < min_normal" by (rule min_normal_pos)
  have E: "0 < E" using M0 mu by (simp add: E_def)
  have dpos: "0 < d'" using d by linarith
  have x_up: "x \<le> hi + K * E" unfolding x_def E_def using up dpos by (simp add: pos_divide_le_eq)
  have x_lw: "lo - K * E \<le> x" unfolding x_def E_def using lw dpos by (simp add: pos_le_divide_eq)
  have KE: "K * E \<le> 60 * E" "0 \<le> K * E" using K E by simp_all
  have xabs: "\<bar>x\<bar> \<le> M + 60 * E" using x_up x_lw KE M by linarith
  have "0 \<le> M + min_normal" using M0 mu by simp
  then have "60 * E \<le> M + min_normal" unfolding E_def by simp
  with xabs have "\<bar>x\<bar> \<le> M + (M + min_normal)" by (rule order_trans[OF _ add_left_mono])
  then have "\<bar>x\<bar> + min_normal \<le> 2 * (M + min_normal)" by simp
  then have "(\<bar>x\<bar> + min_normal) / 2 ^ 53 \<le> 2 * (M + min_normal) / 2 ^ 53" by (rule divide_right_mono) simp
  also have "\<dots> = 2 * E" by (simp add: E_def)
  finally have "(\<bar>x\<bar> + min_normal) / 2 ^ 53 \<le> 2 * E" .
  with fl64_error[of x] have r: "\<bar>fl64 x - x\<bar> \<le> 2 * E" by linarith
  have s: "(M + min_normal) / 2 ^ 47 = 64 * E" by (simp add: E_def)
  show "lo - (M + min_normal) / 2 ^ 47 \<le> fl64 (n' / d')"
    unfolding s x_def[symmetric] using r x_lw KE E by linarith
  show "fl64 (n' / d') \<le> hi + (M + min_normal) / 2 ^ 47"
    unfolding s x_def[symmetric] using r x_up KE E by linarith
qed

lemma nowcast_f64_general:
  assumes pw: "\<forall>w i. 1 / 2 \<le> w \<and> i < 12 \<longrightarrow> 0 < pw w i" "\<forall>w. pw w 0 = 1"
    and ne: "vs \<noteq> []"
  shows "\<exists>r. compute_nowcast_pm25_f64 pw (map Some vs) = Some r
       \<and> Min (set (lastn 12 vs)) - (max \<bar>Min (set (lastn 12 vs))\<bar> \<bar>Max (set (lastn 12 vs))\<bar> + min_normal) / 2 ^ 47 \<le> r
       \<and> r \<le> Max (set (lastn 12 vs)) + (max \<bar>Min (set (lastn 12 vs))\<bar> \<bar>Max (set (lastn 12 vs))\<bar> + min_normal) / 2 ^ 47"
proof (cases "length vs = 1")
  case True
  then obtain v where v: "vs = [v]" by (cases vs) auto
  have "0 \<le> (max \<bar>v\<bar> \<bar>v\<bar> + min_normal) / 2 ^ 47" using min_normal_pos by simp
  then show ?thesis unfolding v
    by (simp add: compute_nowcast_pm25_f64_def non_null_def lastn_def)
next
  case False
  define t where "t = lastn 12 vs"
  define lo where "lo = Min (set t)"
  define hi where "hi = Max (set t)"
  define M where "M = max \<bar>lo\<bar> \<bar>hi\<bar>"
  define weight where "weight = max 0.5 (fl64 (1 - fl64 (fl64 (hi - lo) / max hi (fl64 0.000001))))"
  define res where "res = nowcast_loop_f64 pw weight 0 (rev t) (0, 0)"
  have tne: "t \<noteq> []" using ne by (simp add: t_def lastn_nonempty)
  have tlen: "length t \<le> 12" by (simp add: t_def lastn_props)
  have M: "\<bar>lo\<bar> \<le> M" "\<bar>hi\<bar> \<le> M" by (simp_all add: M_def)
  have bnd: "\<forall>v\<in>set (rev t). lo \<le> v \<and> v \<le> hi" by (simp add: lo_def hi_def)
  have wge: "1 / 2 \<le> weight" by (simp add: weight_def)
  have p2: "\<forall>j. 0 \<le> j \<and> j < 0 + length (rev t) \<longrightarrow> 0 < pw weight j"
    using pw(1) wge tlen by auto
  have p4: "rev t \<noteq> [] \<longrightarrow> 1 \<le> 0 + pw weight 0" using pw(2) by simp
  have p6: "0 + 5 * real (length (rev t)) \<le> 100" using tlen by simp
  have K: "0 \<le> 0 + 5 * real (length (rev t))" "0 + 5 * real (length (rev t)) \<le> 60" using tlen by simp_all
  obtain n' d' where nd: "res = (n', d')" by (cases res)
  have p3: "0 \<le> (0::real)" by simp
  have p7: "(0::real) \<le> (hi + 0 * ((M + min_normal) / 2 ^ 53)) * 0" by simp
  have p8: "(lo - 0 * ((M + min_normal) / 2 ^ 53)) * 0 \<le> (0::real)" by simp
  from f64_loop[where pw = pw and weight = weight and i = 0 and vs = "rev t" and c = 0
      and num = 0 and den = 0, OF M bnd p2 p3 p4 p3 p6 p7 p8] nd
  have inv: "n' \<le> (hi + (0 + 5 * real (length (rev t))) * ((M + min_normal) / 2 ^ 53)) * d'"
    "(lo - (0 + 5 * real (length (rev t))) * ((M + min_normal) / 2 ^ 53)) * d' \<le> n'"
    "1 \<le> d'"
    using tne by (simp_all add: res_def)
  note fin = f64_final[OF M K inv(3) inv(1) inv(2)]
  have dne: "d' \<noteq> 0" using inv(3) by linarith
  have res_eq: "nowcast_loop_f64 pw
      (max (1 / 2) (fl64 (1 - fl64 (fl64 (hi - lo) / max hi (fl64 (1 / 1000000)))))) 0 (rev t) (0, 0)
      = (n', d')"
    using nd by (simp add: res_def weight_def)
  have eq: "compute_nowcast_pm25_f64 pw (map Some vs) = Some (fl64 (n' / d'))"
    using ne False dne
    by (simp add: compute_nowcast_pm25_f64_def non_null_map_Some Let_def
        t_def[symmetric] lo_def[symmetric] hi_def[symmetric] res_eq)
  show ?thesis unfolding eq t_def[symmetric] lo_def[symmetric] hi_def[symmetric] M_def[symmetric]
    using fin by simp
qed

lemma lastn_replicate: "0 < n \<Longrightarrow> set (lastn 12 (replicate n c)) = {c}"
  by (auto simp: lastn_def dest: in_set_dropD)

lemma nowcast_f64_constant:
  assumes pw: "\<forall>w i. 1 / 2 \<le> w \<and> i < 12 \<longrightarrow> 0 < pw w i" "\<forall>w. pw w 0 = 1"
    and n: "0 < n"
  shows "\<exists>r. compute_nowcast_pm25_f64 pw (map Some (replicate n c)) = Some r
       \<and> \<bar>r - c\<bar> \<le> (\<bar>c\<bar> + min_normal) / 2 ^ 47"
proof -
  have ne: "replicate n c \<noteq> []" using n by simp
  from nowcast_f64_general[OF pw ne] obtain r where
    r: "compute_nowcast_pm25_f64 pw (map Some (replicate n c)) = Some r"
       "c - (\<bar>c\<bar> + min_normal) / 2 ^ 47 \<le> r" "r \<le> c + (\<bar>c\<bar> + min_normal) / 2 ^ 47"
    unfolding lastn_replicate[OF n] by auto
  from r(2,3) have "\<bar>r - c\<bar> \<le> (\<bar>c\<bar> + min_normal) / 2 ^ 47" by linarith
  with r(1) show ?thesis by blast
qed

text \<open>The doubles met when three readings of 0.1 are accumulated.\<close>

lemma fl64_tenth: "fl64 (3602879701896397 / 36028797018963968) = 3602879701896397 / 36028797018963968"
  using fl64_eval[of "3602879701896397 / 36028797018963968" "- 4"] by (simp add: rne_def)

lemma fl64_two_tenths: "fl64 (3602879701896397 / 18014398509481984) = 3602879701896397 / 18014398509481984"
  using fl64_eval[of "3602879701896397 / 18014398509481984" "- 3"] by (simp add: rne_def)

lemma fl64_three_tenths: "fl64 (10808639105689191 / 36028797018963968) = 1351079888211149 / 4503599627370496"
  using fl64_eval[of "10808639105689191 / 36028797018963968" "- 2"] by (simp add: rne_def Let_def)

lemma fl64_third: "fl64 (1351079888211149 / 13510798882111488) = 7205759403792795 / 72057594037927936"
  using fl64_eval[of "1351079888211149 / 13510798882111488" "- 4"] by (simp add: rne_def Let_def)

lemma pow_f64_one: "pow_f64 1 i = 1"
  by (simp add: pow_f64_def fl64_1)

lemma pow_f64_zero: "pow_f64 w 0 = 1"
  by (simp add: pow_f64_def fl64_1)

lemma pow_f64_pos:
  assumes "1 / 2 \<le> w" "i < 12"
  shows "0 < pow_f64 w i"
proof -
  have w0: "0 < w" using assms(1) by simp
  have "(1 / 2) ^ i \<le> w ^ i" using assms(1) by (intro power_mono) simp_all
  moreover have "(1 / 2 :: real) ^ 12 \<le> (1 / 2) ^ i" using assms(2) by (intro power_decreasing) simp_all
  moreover have "min_normal \<le> (1 / 2) ^ 12"
  proof -
    have "(2::real) powi (- 1022) \<le> 2 powi (- 12)" by (rule power_int_increasing) simp_all
    also have "(2::real) powi (- 12) = (1 / 2) ^ 12" by (simp add: power_int_minus power_divide)
    finally show ?thesis by (simp only: min_normal_def)
  qed
  ultimately have "min_normal \<le> w ^ i" by linarith
  moreover have p: "0 < w ^ i" using w0 by simp
  ultimately have "min_normal \<le> \<bar>w ^ i\<bar>" by simp
  from fl64_error_normal[OF this] have "\<bar>fl64 (w ^ i) - w ^ i\<bar> \<le> w ^ i / 2 ^ 53" using p by simp
  moreover have "w ^ i / 2 ^ 53 < w ^ i" using p by simp
  ultimately show ?thesis unfolding pow_f64_def by linarith
qed

lemma nowcast_f64_three_tenths:
  "compute_nowcast_pm25_f64 pow_f64
     [Some (3602879701896397 / 36028797018963968), Some (3602879701896397 / 36028797018963968),
      Some (3602879701896397 / 36028797018963968)]
   = Some (7205759403792795 / 72057594037927936)"
  by (simp add: compute_nowcast_pm25_f64_def non_null_def lastn_def Let_def pow_f64_one
      fl64_0 fl64_1 fl64_2 fl64_3 fl64_tenth fl64_two_tenths fl64_three_tenths fl64_third)

text \<open>
  Claim C10, as amended. In binary64, on a non-empty sequence of non-null PM2.5 values of
  magnitude at most \<open>2 ^ 1000\<close> (finite, and no operation overflows), \<^verbatim>\<open>compute_nowcast_pm25\<close>
  returns a value that lies between the minimum and the maximum of the last (at most) twelve
  values up to a rounding slack of \<open>(max \<bar>minimum\<bar> \<bar>maximum\<bar> + 2 powi (- 1022)) / 2 ^ 47\<close>.
  A single value is returned unchanged, and a constant series gives its constant up to the
  same slack. Of \<^verbatim>\<open>weight ** i\<close> only this is used: it is positive for a weight of at least
  0.5 and an exponent below 12, and it is 1 for the exponent 0.
\<close>

theorem compute_nowcast_pm25_f64_between:
  assumes "\<forall>w i. 1 / 2 \<le> w \<and> i < 12 \<longrightarrow> 0 < pw w i" and "\<forall>w. pw w 0 = 1"
  shows "(vs \<noteq> [] \<and> (\<forall>v\<in>set vs. \<bar>v\<bar> \<le> 2 ^ 1000) \<longrightarrow>
            (\<exists>r. compute_nowcast_pm25_f64 pw (map Some vs) = Some r
               \<and> Min (set (lastn 12 vs))
                     - (max \<bar>Min (set (lastn 12 vs))\<bar> \<bar>Max (set (lastn 12 vs))\<bar> + min_normal) / 2 ^ 47 \<le> r
               \<and> r \<le> Max (set (lastn 12 vs))
                     + (max \<bar>Min (set (lastn 12 vs))\<bar> \<bar>Max (set (lastn 12 vs))\<bar> + min_normal) / 2 ^ 47))
       \<and> compute_nowcast_pm25_f64 pw [Some v] = Some v
       \<and> (0 < n \<and> \<bar>c\<bar> \<le> 2 ^ 1000 \<longrightarrow>
            (\<exists>r. compute_nowcast_pm25_f64 pw (map Some (replicate n c)) = Some r
               \<and> \<bar>r - c\<bar> \<le> (\<bar>c\<bar> + min_normal) / 2 ^ 47))"
proof (intro conjI impI)
  assume "vs \<noteq> [] \<and> (\<forall>v\<in>set vs. \<bar>v\<bar> \<le> 2 ^ 1000)"
  then have "vs \<noteq> []" by simp
  with assms show "\<exists>r. compute_nowcast_pm25_f64 pw (map Some vs) = Some r
       \<and> Min (set (lastn 12 vs))
             - (max \<bar>Min (set (lastn 12 vs))\<bar> \<bar>Max (set (lastn 12 vs))\<bar> + min_normal) / 2 ^ 47 \<le> r
       \<and> r \<le> Max (set (lastn 12 vs))
             + (max \<bar>Min (set (lastn 12 vs))\<bar> \<bar>Max (set (lastn 12 vs))\<bar> + min_normal) / 2 ^ 47"
    by (rule nowcast_f64_general)
next
  show "compute_nowcast_pm25_f64 pw [Some v] = Some v"
    by (simp add: compute_nowcast_pm25_f64_def non_null_def)
next
  assume "0 < n \<and> \<bar>c\<bar> \<le> 2 ^ 1000"
  then have "0 < n" by simp
  with assms show "\<exists>r. compute_nowcast_pm25_f64 pw (map Some (replicate n c)) = Some r
       \<and> \<bar>r - c\<bar> \<le> (\<bar>c\<bar> + min_normal) / 2 ^ 47"
    by (rule nowcast_f64_constant)
qed

theorem compute_nowcast_pm25_f64_between_witness:
  "(\<exists>r. compute_nowcast_pm25_f64 pow_f64 (map Some [10, 30, 20]) = Some r
       \<and> 10 - (30 + min_normal) / 2 ^ 47 \<le> r \<and> r \<le> 30 + (30 + min_normal) / 2 ^ 47)
   \<and> compute_nowcast_pm25_f64 pow_f64 [Some 10] = Some 10
   \<and> (\<exists>r. compute_nowcast_pm25_f64 pow_f64 (map Some (replicate 3 7)) = Some r
       \<and> \<bar>r - 7\<bar> \<le> (7 + min_normal) / 2 ^ 47)"
  using compute_nowcast_pm25_f64_between [of pow_f64 "[10, 30, 20]" 10 3 7]
  by (simp add: pow_f64_pos pow_f64_zero lastn_def)

text \<open>
  Claim C10 as stated fails in binary64. Three readings of 0.1, the double
  \<open>3602879701896397 / 2 ^ 55\<close>, give the weight 1; the numerator goes through 0.1, 0.2 and
  0.30000000000000004 (the sum \<open>3 * 0.1\<close> is a tie, rounded to even), the sum of the weights
  through 1, 2 and 3, and the quotient rounds to \<open>7205759403792795 / 2 ^ 56\<close>, which is
  0.10000000000000002: above the maximum of the readings, and not the constant of the series.
\<close>

theorem compute_nowcast_pm25_f64_above_max:
  "compute_nowcast_pm25_f64 pow_f64
     [Some (3602879701896397 / 36028797018963968), Some (3602879701896397 / 36028797018963968),
      Some (3602879701896397 / 36028797018963968)]
     = Some (7205759403792795 / 72057594037927936)
   \<and> Max (set (lastn 12 [3602879701896397 / 36028797018963968, 3602879701896397 / 36028797018963968,
                          3602879701896397 / 36028797018963968 :: real]))
       < 7205759403792795 / 72057594037927936"
  using nowcast_f64_three_tenths by (simp add: lastn_def)

subsection \<open>PM2.5 to AQI\<close>

text \<open>What holds of \<^verbatim>\<open>pm25_aqi\<close> on the default table: the first row that contains \<open>c\<close> is
  interpolated, the value at each row's upper bound is the row's upper index, and every
  concentration above the last upper bound gives the last index.\<close>

lemma aqi_scan_first:
  assumes "aqi_scan rows c = None" "c_lo \<le> c" "c \<le> c_hi" "c_lo < c_hi"
  shows "aqi_scan (rows @ (c_lo, c_hi, i_lo, i_hi) # rest) c
         = Some (Inr (i_lo + (i_hi - i_lo) / (c_hi - c_lo) * (c - c_lo)))"
  using assms by (induction rows c rule: aqi_scan.induct) (auto split: if_splits)

lemma pm25_aqi_12: "pm25_aqi default_config (Some 12) = Inr (Some 50)"
  by (simp add: pm25_aqi_def default_config_def DEFAULT_PM25_BREAKPOINTS_def)

lemma pm25_aqi_boundaries:
  "list_all (\<lambda>(c_lo, c_hi, i_lo, i_hi). pm25_aqi default_config (Some c_hi) = Inr (Some i_hi))
     (PM25_BREAKPOINTS default_config)"
  by (simp add: pm25_aqi_def default_config_def DEFAULT_PM25_BREAKPOINTS_def)

lemma pm25_aqi_saturates:
  "500.4 < c \<Longrightarrow> pm25_aqi default_config (Some c) = Inr (Some 500)"
  by (simp add: pm25_aqi_def default_config_def DEFAULT_PM25_BREAKPOINTS_def)

text \<open>
  Claim C3 says that \<^verbatim>\<open>pm25_aqi\<close> returns the last row's \<open>i_hi\<close> exactly when \<open>c\<close> exceeds
  every row's upper bound. The rows of the default table leave gaps (12.0 to 12.1, 35.4 to
  35.5, ...), and the loop falls through to the final \<^verbatim>\<open>return\<close> for a concentration in a
  gap: at \<open>c = 12.05\<close>, below the upper bounds of five rows, no row matches and the result is
  500.
\<close>

theorem pm25_aqi_gap_saturates:
  "pm25_aqi default_config (Some 12.05) = Inr (Some 500)
   \<and> aqi_scan (PM25_BREAKPOINTS default_config) 12.05 = None
   \<and> list_ex (\<lambda>(c_lo, c_hi, i_lo, i_hi). 12.05 \<le> c_hi) (PM25_BREAKPOINTS default_config)"
  by (simp add: pm25_aqi_def default_config_def DEFAULT_PM25_BREAKPOINTS_def)

subsection \<open>Air-exchange rate\<close>

text \<open>After the clamp at \<open>1e-6\<close> no excess concentration is \<open>\<le> 0\<close>: the guard of
  \<^verbatim>\<open>estimate_ach\<close> never fires, and the function is the regression on the clamped values.\<close>

lemma estimate_ach_guard_dead:
  "\<not> list_ex (\<lambda>v. v \<le> 0) (map (\<lambda>v. max (v - cout) (0.000001::real)) co2_ppm)"
  by (induction co2_ppm) simp_all

lemma estimate_ach_unfolded:
  "estimate_ach tms co2_ppm cout =
     (if length tms < 3 then None
      else case regression_slope (map (\<lambda>t. t - hd tms) tms)
                  (map (\<lambda>v. ln (max (v - cout) 0.000001)) co2_ppm) of
             None \<Rightarrow> None
           | Some slope \<Rightarrow> if slope \<ge> 0 then None else Some (- slope * 3600))"
  using estimate_ach_guard_dead[of cout co2_ppm]
  by (simp add: estimate_ach_def Let_def comp_def)

lemma regression_slope_3: "regression_slope [0, 60, 120] [a, b, c] = Some ((c - a) / 120)"
  by (simp add: regression_slope_def Let_def field_simps)

text \<open>
  Claim C1 says that \<^verbatim>\<open>estimate_ach\<close> returns absent when any CO2 value is at or below the
  outdoor baseline. The code clamps each excess at \<open>1e-6\<close> before it tests \<open>v \<le> 0\<close>, so the
  test never succeeds: for samples at 0 s, 60 s and 120 s with 1000, 800 and 400 ppm over a
  baseline of 420 ppm (the last value is below the baseline) it returns an estimate, about
  605 air changes per hour.
\<close>

theorem estimate_ach_below_baseline:
  "estimate_ach [0, 60, 120] [1000, 800, 400] 420 = Some (30 * (ln 580 - ln 0.000001))
   \<and> list_ex (\<lambda>v. v \<le> 420) [1000, 800, 400::real]"
proof -
  have l: "ln (0.000001::real) < ln 580" by (subst ln_less_cancel_iff) simp_all
  show ?thesis
    using l by (simp add: estimate_ach_def Let_def regression_slope_3 field_simps)
qed

subsection \<open>Occupancy\<close>

text \<open>
  Claim C9. Whatever the batch, the options and the cached state, the estimate that
  \<^verbatim>\<open>compute_occupancy\<close> returns is not negative: it is \<open>0\<close> without CO2 data and
  \<open>max 0 estimate\<close> otherwise.
\<close>

theorem compute_occupancy_nonneg:
  "0 \<le> n_estimate (fst (compute_occupancy cfg samples options ach_origin allow_estimate cached_state))"
  by (simp add: compute_occupancy_def Let_def)

theorem compute_occupancy_nonneg_witness:
  "0 \<le> n_estimate (fst (compute_occupancy default_config []
          \<lparr> volume_m3 = 250, ach = Some 1, cout_ppm = 420, g_person = 4 / 1000000 \<rparr>
          ''default'' False None))"
  using compute_occupancy_nonneg [of default_config "[]"
          "\<lparr> volume_m3 = 250, ach = Some 1, cout_ppm = 420, g_person = 4 / 1000000 \<rparr>"
          "''default''" False None]
  by simp

lemma moving_average_single: "moving_average [c] 3 = [c]"
  by (simp add: moving_average_def)

lemma estimate_ach_short: "length tms < 3 \<Longrightarrow> estimate_ach tms vs cout = None"
  by (simp add: estimate_ach_def)

text \<open>With a single CO2 sample there is no derivative: the steady-state formula is used.\<close>

lemma compute_occupancy_one_sample:
  assumes "concat (map (\<lambda>s. case co2 s of None \<Rightarrow> [] | Some c \<Rightarrow> [(timestamp s, c)]) samples) = [(t, c)]"
  shows "compute_occupancy cfg samples options ach_origin allow cached
         = (\<lparr> n_estimate =
                 max 0 ((case ach options of None \<Rightarrow> DEFAULT_DEVICE_ACH cfg | Some a \<Rightarrow> a)
                        * volume_m3 options / 3600
                        * (c / 1000000 - cout_ppm options / 1000000)
                        / max (if g_person options \<noteq> 0 then g_person options else DEFAULT_G_PERSON cfg)
                              0.000000001),
              ach_used = (case ach options of None \<Rightarrow> DEFAULT_DEVICE_ACH cfg | Some a \<Rightarrow> a),
              ach_source = ach_origin,
              occ_note = join ''; '' [''ach_source='' @ ach_origin, ''ma3_co2_smoothing'',
                                     ''steady_state_estimate''] \<rparr>,
            \<lparr> upd_ach = None, upd_ach_source = None \<rparr>)"
  unfolding compute_occupancy_def assms
  by (simp add: Let_def moving_average_single estimate_ach_short)

lemma aqi_scan_default_ok:
  "aqi_scan DEFAULT_PM25_BREAKPOINTS c \<noteq> Some (Inl e)"
  by (simp add: DEFAULT_PM25_BREAKPOINTS_def)

lemma pm25_aqi_default_ok: "\<exists>a. pm25_aqi default_config x = Inr a"
proof (cases x)
  case None
  then show ?thesis by (simp add: pm25_aqi_def)
next
  case (Some c)
  show ?thesis
  proof (cases "aqi_scan DEFAULT_PM25_BREAKPOINTS c")
    case None
    then show ?thesis using Some
      by (simp add: pm25_aqi_def default_config_def) (simp add: DEFAULT_PM25_BREAKPOINTS_def)
  next
    case (Some r)
    then show ?thesis using \<open>x = Some c\<close> aqi_scan_default_ok[of c]
      by (cases r) (simp_all add: pm25_aqi_def default_config_def)
  qed
qed

lemma build_iaq_default_ok: "\<exists>i. build_iaq default_config n c v t h = Inr i"
proof -
  obtain a where "pm25_aqi default_config n = Inr a" using pm25_aqi_default_ok by blast
  then show ?thesis by (simp add: build_iaq_def Let_def)
qed

lemma compute_baseline_occupancy:
  assumes "compute_baseline cfg dev samples options ds origin allow = Inr (res, upd)"
  shows "occupancy res = fst (compute_occupancy cfg (sort_key timestamp samples) options origin allow ds)"
  using assms
  by (auto simp: compute_baseline_def Let_def split_beta split: if_splits sum.splits)

lemma state_for_fresh:
  "DEVICE_STATE st dev = None \<Longrightarrow>
   state_for cfg dev st =
     (DeviceState_new cfg dev, st\<lparr> DEVICE_STATE := (DEVICE_STATE st)(dev \<mapsto> DeviceState_new cfg dev) \<rparr>)"
  by (simp add: state_for_def Let_def)

lemma state_for_known:
  "DEVICE_STATE st dev = Some d \<Longrightarrow> state_for cfg dev st = (d, st)"
  by (simp add: state_for_def)

lemma resolve_options_office:
  assumes "DEVICE_STATE st ''office_iaq'' = Some (DeviceState_new default_config ''office_iaq'')"
  shows "resolve_options default_config ''office_iaq'' (office_request t) None None None None st
       = ((\<lparr> volume_m3 = 250, ach = Some 1, cout_ppm = 420, g_person = 4 / 1000000 \<rparr>, ''default''), st)"
  using assms
  by (simp add: resolve_options_def state_for_known DeviceState_new_def or_else_def
      office_request_def default_config_def)

lemma samples_office:
  "samples_from_request L [office_reading t] =
     Inr [\<lparr> timestamp = t, device_id = ''office_iaq'', pm25 = Some 10, co2 = Some 900,
            voc = Some 300, pm1 = None, pm4 = None, pm10 = None, temp_c = Some 22, rh = Some 45 \<rparr>]"
  by (simp add: from_mapping_def parse_timestamp_def office_reading_def to_float_def)

lemma office_scenario:
  assumes "DEVICE_STATE st ''office_iaq'' = None"
  shows "\<exists>r. fst (compute L default_config (office_request t) None None None None b st) = Inr r
           \<and> occupancy r =
               \<lparr> n_estimate = 25 / 3, ach_used = 1, ach_source = ''default'',
                 occ_note = ''ach_source=default; ma3_co2_smoothing; steady_state_estimate'' \<rparr>"
proof -
  define s where "s = \<lparr> timestamp = t, device_id = ''office_iaq'', pm25 = Some 10, co2 = Some 900,
            voc = Some 300, pm1 = None, pm4 = None, pm10 = None, temp_c = Some (22::real),
            rh = Some (45::real) \<rparr>"
  define opts where "opts = \<lparr> volume_m3 = 250, ach = Some 1, cout_ppm = 420, g_person = 4 / 1000000 \<rparr>"
  define d where "d = DeviceState_new default_config ''office_iaq''"
  define st1 where "st1 = st\<lparr> DEVICE_STATE := (DEVICE_STATE st)(''office_iaq'' \<mapsto> d) \<rparr>"
  have sf: "state_for default_config ''office_iaq'' st = (d, st1)"
    using assms by (simp add: state_for_fresh d_def st1_def)
  have ro: "resolve_options default_config ''office_iaq'' (office_request t) None None None None st1
          = ((opts, ''default''), st1)"
    unfolding opts_def by (rule resolve_options_office) (simp add: st1_def d_def)
  have sm: "samples_from_request L (readings (office_request t)) = Inr [s]"
    by (simp add: office_request_def samples_office s_def del: samples_from_request.simps)
  obtain i where i: "build_iaq default_config (Some 10) (Some 900) (Some 300) (Some 22) (Some 45) = Inr i"
    using build_iaq_default_ok by blast
  have nc: "compute_nowcast_series [(t, Some 10)] = [(t, 10)]"
    by (simp add: compute_nowcast_series_def compute_nowcast_pm25_def non_null_def)
  obtain res upd where
    cb: "compute_baseline default_config ''office_iaq'' [s] opts (Some d) ''default'' b = Inr (res, upd)"
    using i by (simp add: compute_baseline_def Let_def s_def nc split_beta)
  have occ: "occupancy res = fst (compute_occupancy default_config [s] opts ''default'' b (Some d))"
    using compute_baseline_occupancy[OF cb] by simp
  have dev: "or_unknown (req_device_id (office_request t)) = ''office_iaq''"
    by (simp add: or_unknown_def office_request_def)
  have one: "concat (map (\<lambda>s. case co2 s of None \<Rightarrow> [] | Some c \<Rightarrow> [(timestamp s, c)]) [s]) = [(t, 900)]"
    by (simp add: s_def)
  have "fst (compute L default_config (office_request t) None None None None b st) = Inr res"
    by (simp add: compute_def dev sf ro sm cb Let_def)
  moreover have "occupancy res = \<lparr> n_estimate = 25 / 3, ach_used = 1, ach_source = ''default'',
                 occ_note = ''ach_source=default; ma3_co2_smoothing; steady_state_estimate'' \<rparr>"
    unfolding occ compute_occupancy_one_sample[OF one]
    by (simp add: opts_def default_config_def)
  ultimately show ?thesis by blast
qed

text \<open>
  Claim C2, as amended. For the end-to-end computation on the single reading
  \<open>{co2: 900, voc: 300, pm25: 10, temp_c: 22, rh: 45}\<close> of a device with no cached state
  and no overrides, on either path (with or without the state update), the occupancy is
  the steady-state estimate \<open>Q (C\<^sub>t - C\<^sub>o\<^sub>u\<^sub>t) / g = 25/3\<close> (about 8.33 occupants), with
  \<open>ach_used = 1\<close> from the default, and the note ends in \<open>steady_state_estimate\<close>.
\<close>

theorem office_occupancy_steady_state:
  "DEVICE_STATE st ''office_iaq'' = None \<Longrightarrow>
   \<exists>r. fst (compute L default_config (office_request t) None None None None b st) = Inr r
      \<and> occupancy r =
          \<lparr> n_estimate = 25 / 3, ach_used = 1, ach_source = ''default'',
            occ_note = ''ach_source=default; ma3_co2_smoothing; steady_state_estimate'' \<rparr>"
  by (rule office_scenario)

theorem office_occupancy_steady_state_witness:
  "DEVICE_STATE initial_store ''office_iaq'' = None \<and>
   (\<exists>r. fst (compute stub_lib default_config (office_request 0) None None None None False initial_store) = Inr r
      \<and> occupancy r =
          \<lparr> n_estimate = 25 / 3, ach_used = 1, ach_source = ''default'',
            occ_note = ''ach_source=default; ma3_co2_smoothing; steady_state_estimate'' \<rparr>)"
proof -
  have h: "DEVICE_STATE initial_store ''office_iaq'' = None" by (simp add: initial_store_def)
  show ?thesis
    using h office_occupancy_steady_state [OF h, of stub_lib 0 False] by simp
qed

text \<open>
  Claim C2 as stated says \<open>n_estimate = 0\<close> for that reading. On the code the estimate is
  not \<open>0\<close>.
\<close>

theorem office_occupancy_not_zero:
  "(case fst (compute stub_lib default_config (office_request 0) None None None None False initial_store) of
      Inl e \<Rightarrow> False
    | Inr r \<Rightarrow> n_estimate (occupancy r) = 25 / 3 \<and> n_estimate (occupancy r) \<noteq> 0)"
proof -
  have h: "DEVICE_STATE initial_store ''office_iaq'' = None" by (simp add: initial_store_def)
  from office_scenario[OF h, of stub_lib 0 False] show ?thesis by auto
qed

subsection \<open>The smoke detector\<close>

lemma smoke_step_empty: "smoke_step cfg s [] = s"
  by (simp add: smoke_step_def assess_smoke_def)

lemma smoke_step_cases:
  "x \<noteq> [] \<Longrightarrow> smoke_step cfg s x =
     (if trigger_met cfg x then
        \<lparr> active = True, consecutive_below = 0, last_reason = ''rapid_rise'' \<rparr>
      else if active s then
        (if latest_val x \<le> clear_threshold cfg then
           (if consecutive_below s + 1 \<ge> SMOKE_CONSECUTIVE cfg then
              \<lparr> active = False, consecutive_below = 0, last_reason = ''clearing'' \<rparr>
            else
              \<lparr> active = True, consecutive_below = consecutive_below s + 1,
                last_reason = ''hysteresis_hold'' \<rparr>)
         else \<lparr> active = True, consecutive_below = 0, last_reason = ''hysteresis_hold'' \<rparr>)
      else \<lparr> active = False, consecutive_below = 0, last_reason = ''below_threshold'' \<rparr>)"
  by (simp add: smoke_step_def assess_smoke_def Let_def)

lemma smoke_run_snoc: "smoke_run cfg s (steps @ [x]) = smoke_step cfg (smoke_run cfg s steps) x"
  by (simp add: smoke_run_def)

lemma step_activates:
  assumes "\<not> active s" "active (smoke_step cfg s x)"
  shows "x \<noteq> [] \<and> trigger_met cfg x"
proof (cases "x = []")
  case True
  then show ?thesis using assms by (simp add: smoke_step_empty)
next
  case False
  then show ?thesis using assms by (simp add: smoke_step_cases split: if_splits)
qed

lemma step_deactivates:
  assumes "active s" "\<not> active (smoke_step cfg s x)"
  shows "x \<noteq> [] \<and> latest_val x \<le> clear_threshold cfg \<and> \<not> trigger_met cfg x
         \<and> SMOKE_CONSECUTIVE cfg \<le> consecutive_below s + 1"
proof (cases "x = []")
  case True
  then show ?thesis using assms by (simp add: smoke_step_empty)
next
  case False
  then show ?thesis using assms by (simp add: smoke_step_cases split: if_splits)
qed

lemma step_reset:
  "y \<noteq> [] \<Longrightarrow> clear_threshold cfg < latest_val y \<Longrightarrow> consecutive_below (smoke_step cfg s y) = 0"
  by (simp add: smoke_step_cases)

lemma below_not_trigger:
  "0 < SMOKE_CLEAR_DELTA cfg \<Longrightarrow> y \<noteq> [] \<Longrightarrow> latest_val y \<le> clear_threshold cfg \<Longrightarrow> below_clear cfg y"
  by (simp add: below_clear_def trigger_met_def clear_threshold_def)

lemma run_active_trigger:
  assumes "\<not> active s" "active (smoke_run cfg s steps)"
  shows "\<exists>pre x post. steps = pre @ x # post \<and> x \<noteq> [] \<and> trigger_met cfg x
           \<and> (\<forall>k\<le>length post. active (smoke_run cfg s (pre @ x # take k post)))"
  using assms(2)
proof (induction steps rule: rev_induct)
  case Nil
  then show ?case using assms(1) by (simp add: smoke_run_def)
next
  case (snoc y steps)
  show ?case
  proof (cases "active (smoke_run cfg s steps)")
    case True
    from snoc.IH[OF True] obtain pre x post where
      p: "steps = pre @ x # post" "x \<noteq> []" "trigger_met cfg x"
         "\<forall>k\<le>length post. active (smoke_run cfg s (pre @ x # take k post))"
      by blast
    have "\<forall>k\<le>length (post @ [y]). active (smoke_run cfg s (pre @ x # take k (post @ [y])))"
    proof (intro allI impI)
      fix k assume k: "k \<le> length (post @ [y])"
      show "active (smoke_run cfg s (pre @ x # take k (post @ [y])))"
      proof (cases "k \<le> length post")
        case True
        then show ?thesis using p(4) by simp
      next
        case False
        then have "k = Suc (length post)" using k by simp
        then show ?thesis using snoc.prems p(1) by simp
      qed
    qed
    moreover have "steps @ [y] = pre @ x # (post @ [y])" using p(1) by simp
    ultimately show ?thesis using p(2,3) by blast
  next
    case False
    have "active (smoke_step cfg (smoke_run cfg s steps) y)"
      using snoc.prems by (simp add: smoke_run_snoc)
    from step_activates[OF False this] have y: "y \<noteq> []" "trigger_met cfg y" by simp_all
    have "\<forall>k\<le>length ([]::(datetime \<times> real) list list). active (smoke_run cfg s (steps @ y # take k []))"
      using snoc.prems by simp
    then show ?thesis using y by blast
  qed
qed

lemma run_hold:
  assumes "active s" "list_all (below_clear cfg) xs"
    "consecutive_below s + int (length xs) < SMOKE_CONSECUTIVE cfg"
  shows "active (smoke_run cfg s xs)
       \<and> consecutive_below (smoke_run cfg s xs) = consecutive_below s + int (length xs)
       \<and> (xs \<noteq> [] \<longrightarrow> last_reason (smoke_run cfg s xs) = ''hysteresis_hold'')"
  using assms(2,3)
proof (induction xs rule: rev_induct)
  case Nil
  then show ?case using assms(1) by (simp add: smoke_run_def)
next
  case (snoc x xs)
  have ih: "active (smoke_run cfg s xs)"
     "consecutive_below (smoke_run cfg s xs) = consecutive_below s + int (length xs)"
    using snoc by simp_all
  have x: "x \<noteq> []" "latest_val x \<le> clear_threshold cfg" "\<not> trigger_met cfg x"
    using snoc.prems(1) by (simp_all add: below_clear_def)
  show ?case
    using ih x snoc.prems(2) by (simp add: smoke_run_snoc smoke_step_cases)
qed

lemma run_clear:
  assumes "active s" "list_all (below_clear cfg) xs" "xs \<noteq> []"
    "consecutive_below s + int (length xs) = SMOKE_CONSECUTIVE cfg"
  shows "smoke_run cfg s xs = \<lparr> active = False, consecutive_below = 0, last_reason = ''clearing'' \<rparr>"
proof -
  obtain ys y where xs: "xs = ys @ [y]" using assms(3) by (cases xs rule: rev_cases) simp_all
  have b: "list_all (below_clear cfg) ys" "below_clear cfg y" using assms(2) xs by simp_all
  have "consecutive_below s + int (length ys) < SMOKE_CONSECUTIVE cfg" using assms(4) xs by simp
  from run_hold[OF assms(1) b(1) this]
  have h: "active (smoke_run cfg s ys)"
    "consecutive_below (smoke_run cfg s ys) = consecutive_below s + int (length ys)" by simp_all
  show ?thesis
    using h b(2) assms(4) unfolding xs
    by (simp add: smoke_run_snoc smoke_step_cases below_clear_def)
qed

lemma latest_val_single: "latest_val [(t, v)] = v"
  by (simp add: latest_val_def)

lemma previous_val_single: "previous_val [(t, v)] = v"
  by (simp add: previous_val_def Let_def split: option.splits)

lemma trigger_example: "trigger_met default_config [(0, 10), (700, 50)]"
  by (simp add: trigger_met_def rise_def latest_val_def previous_val_def default_config_def)

lemma below_example: "below_clear default_config [(0, 20)]"
  by (simp add: below_clear_def trigger_met_def rise_def latest_val_single previous_val_single
      clear_threshold_def default_config_def)

text \<open>
  Claim C4. Over every run of \<^verbatim>\<open>assess_smoke\<close>:
  \<^item> a run that starts inactive and ends active contains a step with a non-empty series
    that met the trigger (\<open>latest \<ge> trigger\<close> and \<open>rise \<ge> min_rise\<close>), and the state
    was active after every step from that one on;
  \<^item> a step that takes an active state to inactive has \<open>latest \<le> clear_threshold\<close>, does
    not trigger, and brings the counter to the configured number;
  \<^item> from an active state, steps at or below the clear threshold keep it active with
    reason \<open>hysteresis_hold\<close> and count up while the counter stays under the configured
    number, and the step that reaches the number clears it (reason \<open>clearing\<close>, counter
    \<open>0\<close>): with the counter at \<open>0\<close> after a trigger, exactly the configured number of
    consecutive steps;
  \<^item> a step with \<open>latest > clear_threshold\<close> leaves the counter at \<open>0\<close>;
  \<^item> with a positive clear delta, a step at or below the clear threshold cannot trigger.
  The witness runs the default configuration, where the number is 2.
\<close>

theorem smoke_hysteresis:
  "(\<not> active s \<and> active (smoke_run cfg s steps) \<longrightarrow>
      (\<exists>pre x post. steps = pre @ x # post \<and> x \<noteq> [] \<and> trigger_met cfg x
         \<and> (\<forall>k\<le>length post. active (smoke_run cfg s (pre @ x # take k post)))))
   \<and> (active a \<and> \<not> active (smoke_step cfg a x) \<longrightarrow>
        x \<noteq> [] \<and> latest_val x \<le> clear_threshold cfg \<and> \<not> trigger_met cfg x
        \<and> SMOKE_CONSECUTIVE cfg \<le> consecutive_below a + 1)
   \<and> (active a \<and> list_all (below_clear cfg) xs
        \<and> consecutive_below a + int (length xs) < SMOKE_CONSECUTIVE cfg \<longrightarrow>
        active (smoke_run cfg a xs)
        \<and> consecutive_below (smoke_run cfg a xs) = consecutive_below a + int (length xs)
        \<and> (xs \<noteq> [] \<longrightarrow> last_reason (smoke_run cfg a xs) = ''hysteresis_hold''))
   \<and> (active a \<and> list_all (below_clear cfg) ys \<and> ys \<noteq> []
        \<and> consecutive_below a + int (length ys) = SMOKE_CONSECUTIVE cfg \<longrightarrow>
        smoke_run cfg a ys = \<lparr> active = False, consecutive_below = 0, last_reason = ''clearing'' \<rparr>)
   \<and> (y \<noteq> [] \<and> clear_threshold cfg < latest_val y \<longrightarrow>
        consecutive_below (smoke_step cfg b y) = 0)
   \<and> (0 < SMOKE_CLEAR_DELTA cfg \<and> y \<noteq> [] \<and> latest_val y \<le> clear_threshold cfg \<longrightarrow>
        below_clear cfg y)"
  using run_active_trigger[of s cfg steps] step_deactivates[of a cfg x]
    run_hold[of a cfg xs] run_clear[of a cfg ys] step_reset[of y cfg b] below_not_trigger[of cfg y]
  by blast

theorem smoke_hysteresis_witness:
  "\<not> active SmokeState_new
   \<and> active (smoke_run default_config SmokeState_new [[(0, 10), (700, 50)], [(0, 20)]])
   \<and> (\<exists>pre x post. [[(0, 10), (700, 50)], [(0, 20)]] = pre @ x # post \<and> x \<noteq> []
         \<and> trigger_met default_config x
         \<and> (\<forall>k\<le>length post. active (smoke_run default_config SmokeState_new (pre @ x # take k post))))
   \<and> active (smoke_run default_config
        \<lparr> active = True, consecutive_below = 0, last_reason = ''rapid_rise'' \<rparr> [[(0, 20)]])
   \<and> consecutive_below (smoke_run default_config
        \<lparr> active = True, consecutive_below = 0, last_reason = ''rapid_rise'' \<rparr> [[(0, 20)]]) = 1
   \<and> last_reason (smoke_run default_config
        \<lparr> active = True, consecutive_below = 0, last_reason = ''rapid_rise'' \<rparr> [[(0, 20)]]) = ''hysteresis_hold''
   \<and> smoke_run default_config
        \<lparr> active = True, consecutive_below = 0, last_reason = ''rapid_rise'' \<rparr> [[(0, 20)], [(0, 20)]]
      = \<lparr> active = False, consecutive_below = 0, last_reason = ''clearing'' \<rparr>
   \<and> consecutive_below (smoke_step default_config
        \<lparr> active = True, consecutive_below = 1, last_reason = ''hysteresis_hold'' \<rparr> [(0, 32)]) = 0
   \<and> below_clear default_config [(0, 20)]"
proof -
  let ?hot = "\<lparr> active = True, consecutive_below = 0, last_reason = ''rapid_rise'' \<rparr>"
  let ?held = "\<lparr> active = True, consecutive_below = 1, last_reason = ''hysteresis_hold'' \<rparr>"
  let ?trig = "[(0, 10), (700, 50)] :: (datetime \<times> real) list"
  let ?low = "[(0, 20)] :: (datetime \<times> real) list"
  have n: "SMOKE_CONSECUTIVE default_config = 2" "clear_threshold default_config = 30"
    "0 < SMOKE_CLEAR_DELTA default_config"
    by (simp_all add: default_config_def clear_threshold_def)
  have h0: "\<not> active SmokeState_new" by (simp add: SmokeState_new_def)
  have h1: "active (smoke_run default_config SmokeState_new [?trig, ?low])"
    using below_example trigger_example n
    by (simp add: smoke_run_def smoke_step_cases below_clear_def)
  have h2: "list_all (below_clear default_config) [?low]"
    "list_all (below_clear default_config) [?low, ?low]"
    using below_example by simp_all
  have h3: "latest_val [(0, 32)] > clear_threshold default_config"
    "latest_val ?low \<le> clear_threshold default_config"
    by (simp_all add: latest_val_single n)
  note T1 = smoke_hysteresis[where s = SmokeState_new and cfg = default_config
      and steps = "[?trig, ?low]" and a = ?hot and xs = "[?low]" and ys = "[?low, ?low]"
      and y = "[(0, 32)]" and b = ?held and x = ?low]
  note T2 = smoke_hysteresis[where s = SmokeState_new and cfg = default_config
      and steps = "[]" and a = ?hot and xs = "[]" and ys = "[]"
      and y = ?low and b = ?held and x = ?low]
  show ?thesis
    using T1 T2 h0 h1 h2 h3 n by simp
qed

subsection \<open>Mode control\<close>

text \<open>\<^verbatim>\<open>set_mode\<close> itself does not validate: every word but \<^verbatim>\<open>baseline\<close> sets the mode \<^verbatim>\<open>ml\<close>.
  The validation is the pattern of \<^verbatim>\<open>ModeRequest\<close> at the endpoint.\<close>

lemma set_mode_unvalidated:
  "set_mode m st = ((if m = ''baseline'' then ''baseline'' else ''ml''),
                    st\<lparr> MODE := (if m = ''baseline'' then ''baseline'' else ''ml'') \<rparr>)"
  by (simp add: set_mode_def Let_def)

lemma update_mode_cases:
  "update_mode m st =
     (if m = ''baseline'' \<or> m = ''ml'' then (Inr m, st\<lparr> MODE := m \<rparr>) else (Inl ValidationError, st))"
  by (auto simp: update_mode_def ModeRequest_init_def set_mode_def Let_def)

text \<open>
  Claim C6, as amended. Setting the mode through the endpoint is validated against exactly
  the two words \<^verbatim>\<open>baseline\<close> and \<^verbatim>\<open>ml\<close>: every other string is rejected with a validation
  error before \<^verbatim>\<open>set_mode\<close> is called, and the stored mode is unchanged; each of the two
  words becomes the stored mode.
\<close>

theorem update_mode_validated:
  "(m \<noteq> ''baseline'' \<and> m \<noteq> ''ml'' \<longrightarrow>
      update_mode m st = (Inl ValidationError, st) \<and> get_mode (snd (update_mode m st)) = get_mode st)
   \<and> (m = ''baseline'' \<or> m = ''ml'' \<longrightarrow>
      update_mode m st = (Inr m, st\<lparr> MODE := m \<rparr>) \<and> get_mode (snd (update_mode m st)) = m)"
  by (simp add: update_mode_cases get_mode_def)

theorem update_mode_validated_witness:
  "update_mode ''turbo'' initial_store = (Inl ValidationError, initial_store)
   \<and> get_mode (snd (update_mode ''turbo'' initial_store)) = get_mode initial_store
   \<and> update_mode ''ml'' initial_store = (Inr ''ml'', initial_store\<lparr> MODE := ''ml'' \<rparr>)
   \<and> get_mode (snd (update_mode ''ml'' initial_store)) = ''ml''"
  using update_mode_validated [of "''turbo''" initial_store]
    update_mode_validated [of "''ml''" initial_store]
  by (simp add: get_mode_def)

text \<open>
  Claim C6 as stated names the two values \<^verbatim>\<open>baseline\<close> and \<^verbatim>\<open>model-driven\<close>. On the code the
  word \<^verbatim>\<open>model-driven\<close> is rejected, and the word \<^verbatim>\<open>ml\<close>, which is neither of the two, is
  accepted and changes the stored mode.
\<close>

theorem update_mode_model_driven:
  "update_mode ''model-driven'' initial_store = (Inl ValidationError, initial_store)
   \<and> ''ml'' \<noteq> ''baseline'' \<and> ''ml'' \<noteq> ''model-driven''
   \<and> update_mode ''ml'' initial_store = (Inr ''ml'', initial_store\<lparr> MODE := ''ml'' \<rparr>)
   \<and> get_mode (snd (update_mode ''ml'' initial_store)) \<noteq> get_mode initial_store"
  by (simp add: update_mode_cases get_mode_def initial_store_def)

subsection \<open>Resolution of the physical parameters\<close>

lemma or_else_truthy: "truthy (Some v) \<Longrightarrow> or_else (Some v) d = v"
  by (simp add: truthy_def or_else_def)

lemma or_else_falsy: "\<not> truthy v \<Longrightarrow> or_else v d = d"
  by (cases v) (simp_all add: truthy_def or_else_def)

lemma resolve_options_fields:
  "resolve_options cfg dev request o_v o_a o_c o_g st =
     (let state = fst (state_for cfg dev st) in
      ((\<lparr> volume_m3 = or_else o_v (or_else (req_volume_m3 request)
                         (if ds_volume_m3 state \<noteq> 0 then ds_volume_m3 state else DEFAULT_VOLUME_M3 cfg)),
          ach = Some (fst (case o_a of
               Some a \<Rightarrow> (a, ''provided'')
             | None \<Rightarrow>
                 (case req_ach request of
                    Some a \<Rightarrow> (a, ''provided'')
                  | None \<Rightarrow>
                      (case ds_ach state of
                         Some a \<Rightarrow> (a, if ds_ach_source state \<noteq> [] then ds_ach_source state else ''cached'')
                       | None \<Rightarrow> (DEFAULT_DEVICE_ACH cfg, ''default''))))),
          cout_ppm = or_else o_c (or_else (req_cout_ppm request)
                         (if ds_cout_ppm state \<noteq> 0 then ds_cout_ppm state else DEFAULT_DEVICE_COUT_PPM cfg)),
          g_person = or_else o_g (or_else (g_per_person_m3_s request) (ds_g_person state)) \<rparr>,
        snd (case o_a of
               Some a \<Rightarrow> (a, ''provided'')
             | None \<Rightarrow>
                 (case req_ach request of
                    Some a \<Rightarrow> (a, ''provided'')
                  | None \<Rightarrow>
                      (case ds_ach state of
                         Some a \<Rightarrow> (a, if ds_ach_source state \<noteq> [] then ds_ach_source state else ''cached'')
                       | None \<Rightarrow> (DEFAULT_DEVICE_ACH cfg, ''default''))))),
       snd (state_for cfg dev st)))"
  by (simp add: resolve_options_def Let_def split_beta)

text \<open>
  Claim C7, as amended. The parameters are resolved per call by the precedence explicit
  override, then the request's value, then the cached device value, then the global
  default, where
  \<^item> for \<open>ach\<close> a value is present when it is not \<^verbatim>\<open>None\<close>: an explicit override of any
    value, \<open>0\<close> included, is the resolved value;
  \<^item> for \<open>volume_m3\<close>, \<open>cout_ppm\<close> and \<open>g_person\<close> a value is present when it is neither
    \<^verbatim>\<open>None\<close> nor \<open>0\<close> (Python's \<^verbatim>\<open>or\<close>): a non-zero override is the resolved value, and
    for \<open>g_person\<close> the last source is the cached device value.
\<close>

theorem resolve_options_precedence:
  "(let opts = fst (fst (resolve_options cfg dev request o_v o_a o_c o_g st));
        origin = snd (fst (resolve_options cfg dev request o_v o_a o_c o_g st));
        state = fst (state_for cfg dev st)
    in
      (\<forall>a. o_a = Some a \<longrightarrow> ach opts = Some a \<and> origin = ''provided'')
    \<and> (\<forall>a. o_a = None \<and> req_ach request = Some a \<longrightarrow> ach opts = Some a \<and> origin = ''provided'')
    \<and> (\<forall>a. o_a = None \<and> req_ach request = None \<and> ds_ach state = Some a \<longrightarrow> ach opts = Some a)
    \<and> (o_a = None \<and> req_ach request = None \<and> ds_ach state = None \<longrightarrow>
          ach opts = Some (DEFAULT_DEVICE_ACH cfg) \<and> origin = ''default'')
    \<and> (\<forall>v. o_v = Some v \<and> v \<noteq> 0 \<longrightarrow> volume_m3 opts = v)
    \<and> (\<forall>v. \<not> truthy o_v \<and> req_volume_m3 request = Some v \<and> v \<noteq> 0 \<longrightarrow> volume_m3 opts = v)
    \<and> (\<not> truthy o_v \<and> \<not> truthy (req_volume_m3 request) \<and> ds_volume_m3 state \<noteq> 0 \<longrightarrow>
          volume_m3 opts = ds_volume_m3 state)
    \<and> (\<not> truthy o_v \<and> \<not> truthy (req_volume_m3 request) \<and> ds_volume_m3 state = 0 \<longrightarrow>
          volume_m3 opts = DEFAULT_VOLUME_M3 cfg)
    \<and> (\<forall>v. o_c = Some v \<and> v \<noteq> 0 \<longrightarrow> cout_ppm opts = v)
    \<and> (\<forall>v. \<not> truthy o_c \<and> req_cout_ppm request = Some v \<and> v \<noteq> 0 \<longrightarrow> cout_ppm opts = v)
    \<and> (\<not> truthy o_c \<and> \<not> truthy (req_cout_ppm request) \<and> ds_cout_ppm state \<noteq> 0 \<longrightarrow>
          cout_ppm opts = ds_cout_ppm state)
    \<and> (\<not> truthy o_c \<and> \<not> truthy (req_cout_ppm request) \<and> ds_cout_ppm state = 0 \<longrightarrow>
          cout_ppm opts = DEFAULT_DEVICE_COUT_PPM cfg)
    \<and> (\<forall>v. o_g = Some v \<and> v \<noteq> 0 \<longrightarrow> g_person opts = v)
    \<and> (\<forall>v. \<not> truthy o_g \<and> g_per_person_m3_s request = Some v \<and> v \<noteq> 0 \<longrightarrow> g_person opts = v)
    \<and> (\<not> truthy o_g \<and> \<not> truthy (g_per_person_m3_s request) \<longrightarrow> g_person opts = ds_g_person state))"
  unfolding resolve_options_fields Let_def
  by (auto simp: or_else_falsy or_else_def truthy_def split: option.splits)

theorem resolve_options_precedence_witness:
  "(let r = resolve_options default_config ''dev''
              \<lparr> req_device_id = Some ''dev'', readings = [], req_volume_m3 = Some 100,
                req_ach = Some 2, req_cout_ppm = None, g_per_person_m3_s = None \<rparr>
              (Some 300) (Some 0) None None initial_store
    in ach (fst (fst r)) = Some 0 \<and> snd (fst r) = ''provided'' \<and> volume_m3 (fst (fst r)) = 300
       \<and> cout_ppm (fst (fst r)) = 420 \<and> g_person (fst (fst r)) = 4 / 1000000)"
  using resolve_options_precedence [of default_config "''dev''"
          "\<lparr> req_device_id = Some ''dev'', readings = [], req_volume_m3 = Some 100,
             req_ach = Some 2, req_cout_ppm = None, g_per_person_m3_s = None \<rparr>"
          "Some 300" "Some 0" None None initial_store]
  by (simp add: Let_def truthy_def state_for_def initial_store_def DeviceState_new_def
      default_config_def)

text \<open>
  Claim C7 as stated says that an explicit override of any value, \<open>0\<close> included, is the
  resolved value. An override \<open>volume_m3 = 0\<close> is passed over for the request's 100, and an
  override \<open>cout_ppm = 0\<close> for the cached 420.
\<close>

theorem resolve_options_zero_override:
  "(let r = resolve_options default_config ''dev''
              \<lparr> req_device_id = Some ''dev'', readings = [], req_volume_m3 = Some 100,
                req_ach = None, req_cout_ppm = None, g_per_person_m3_s = None \<rparr>
              (Some 0) None (Some 0) None initial_store
    in volume_m3 (fst (fst r)) = 100 \<and> cout_ppm (fst (fst r)) = 420)"
  by (simp add: resolve_options_fields Let_def or_else_def state_for_def initial_store_def
      DeviceState_new_def default_config_def)

subsection \<open>Validation of the readings of a batch\<close>

text \<open>
  Every path into \<^verbatim>\<open>_compute\<close> builds its readings through pydantic, which refuses the
  whole request when one timestamp does not validate. The readings that arrive hold a
  \<^verbatim>\<open>datetime\<close>, each of them gives a sample, and only an empty list of readings ends in
  \<^verbatim>\<open>ValueError("No valid readings provided")\<close>.
\<close>

lemma validate_readings_datetime:
  "validate_readings L es = Inr rs \<Longrightarrow>
     length rs = length es \<and> list_all (\<lambda>r. \<exists>t. r_timestamp r = TsDatetime t) rs"
  by (induction es arbitrary: rs)
     (auto simp: BaselineReading_init_def split: sum.splits option.splits)

lemma validate_readings_invalid:
  "list_ex (\<lambda>e. pydantic_datetime L (r_timestamp e) = None) es \<Longrightarrow>
     validate_readings L es = Inl ValidationError"
  by (induction es) (auto simp: BaselineReading_init_def split: sum.splits option.splits)

lemma samples_validated:
  "list_all (\<lambda>r. \<exists>t. r_timestamp r = TsDatetime t) rs \<Longrightarrow>
     \<exists>ss. samples_from_request L rs = Inr ss \<and> length ss = length rs"
  by (induction rs) (auto simp: from_mapping_def parse_timestamp_def)

lemma compute_request_payload_invalid:
  "list_ex (\<lambda>e. pydantic_datetime L (r_timestamp e) = None) (readings payload) \<Longrightarrow>
     compute_request_payload L cfg payload st = (Inl ValidationError, st)"
  by (simp add: compute_request_payload_def BaselineRequest_init_def validate_readings_invalid)

lemma compute_request_payload_samples:
  assumes "BaselineRequest_init L payload = Inr request"
  shows "\<exists>ss. samples_from_request L (readings request) = Inr ss
              \<and> length ss = length (readings payload)"
proof -
  obtain rs where rs: "validate_readings L (readings payload) = Inr rs" "request = payload\<lparr> readings := rs \<rparr>"
    using assms by (auto simp: BaselineRequest_init_def split: sum.splits)
  from validate_readings_datetime[OF rs(1)] samples_validated[of rs L] rs(2)
  show ?thesis by auto
qed

lemma compute_empty_batch:
  "readings request = [] \<Longrightarrow>
     fst (compute L cfg request o_v o_a o_c o_g upd st) = Inl (ValueError ''No valid readings provided'')"
  by (simp add: compute_def Let_def split_beta)

text \<open>
  The branch of \<^verbatim>\<open>_samples_from_request\<close> that skips a reading, on readings that did not
  pass through pydantic.
\<close>

lemma samples_discard:
  assumes "from_mapping L r = Inl (ValueError msg)"
  shows "samples_from_request L (pre @ r # post) = samples_from_request L (pre @ post)"
  using assms by (induction pre) (simp_all split: sum.splits error.splits)

text \<open>
  Claim C8 says that a reading whose timestamp fails to parse is discarded and the
  computation proceeds with the remaining readings. \<^verbatim>\<open>_samples_from_request\<close> has the branch
  that would do so (the last conjunct), but no request reaches it with such a reading: for
  a batch of one reading with the timestamp \<^verbatim>\<open>yesterday\<close> and one valid reading,
  \<^verbatim>\<open>compute_request_payload\<close> fails with the validation error of the whole request, the
  store unchanged, and so does a streaming submission of the invalid reading.
\<close>

theorem invalid_timestamp_fails_batch:
  "compute_request_payload stub_lib default_config
      ((office_request 0)\<lparr> readings :=
          [(office_reading 0)\<lparr> r_timestamp := TsText ''yesterday'' \<rparr>, office_reading 0] \<rparr>)
      initial_store
     = (Inl ValidationError, initial_store)
   \<and> compute_from_payload stub_lib default_config
        ((office_reading 0)\<lparr> r_timestamp := TsText ''yesterday'' \<rparr>) None None None None initial_store
     = (Inl ValidationError, initial_store)
   \<and> samples_from_request stub_lib
        [(office_reading 0)\<lparr> r_timestamp := TsText ''yesterday'' \<rparr>, office_reading 0]
     = samples_from_request stub_lib [office_reading 0]"
proof -
  let ?bad = "(office_reading 0)\<lparr> r_timestamp := TsText ''yesterday'' \<rparr>"
  have a: "compute_request_payload stub_lib default_config
      ((office_request 0)\<lparr> readings := [?bad, office_reading 0] \<rparr>) initial_store
     = (Inl ValidationError, initial_store)"
    by (rule compute_request_payload_invalid) (simp add: stub_lib_def)
  have b: "compute_from_payload stub_lib default_config ?bad None None None None initial_store
     = (Inl ValidationError, initial_store)"
    by (simp add: compute_from_payload_def BaselineReading_init_def stub_lib_def)
  have f: "from_mapping stub_lib ?bad = Inl (ValueError ''invalid timestamp: yesterday'')"
    by (simp add: from_mapping_def parse_timestamp_def stub_lib_def Let_def)
  have c: "samples_from_request stub_lib [?bad, office_reading 0]
     = samples_from_request stub_lib [office_reading 0]"
    using samples_discard[OF f, of "[]" "[office_reading 0]"] by simp
  show ?thesis using a b c by blast
qed

subsection \<open>Streaming submissions and the registries\<close>











lemma deque_append_length: "length (deque_append h e) = min 288 (length h + 1)"
  by (simp add: deque_append_def lastn_def)






end
